theory Spec2Isabelle
  imports Main
begin

section \<open>Python strings\<close>

text \<open>
  A Python \<open>str\<close> is a sequence of code points. It is modelled as a \<open>string\<close>, each
  \<open>char\<close> standing for the code point of the same number, so the strings of the model
  are those over the code points below 256. The methods of \<open>str\<close> that \<open>cli.py\<close> calls
  are written out for these code points.
\<close>

definition is_space :: "char \<Rightarrow> bool" where
  \<comment> \<open>\<open>str.isspace\<close> below 256: TAB, LF, VT, FF, CR, FS, GS, RS, US, the blank, NEL (0x85)
      and the no-break space (0xA0). \<open>str.strip()\<close> and \<open>int()\<close> remove these.\<close>
  "is_space c =
     (let n = (of_char c :: nat)
      in (9 \<le> n \<and> n \<le> 13) \<or> (28 \<le> n \<and> n \<le> 32) \<or> n = 133 \<or> n = 160)"

definition strip :: "string \<Rightarrow> string" where
  \<comment> \<open>\<open>str.strip()\<close>: leading and trailing whitespace removed.\<close>
  "strip s = rev (dropWhile is_space (rev (dropWhile is_space s)))"

definition lower_char :: "char \<Rightarrow> char" where
  \<comment> \<open>\<open>A\<close> to \<open>Z\<close>, and the capital letters from 0xC0 to 0xDE (0xD7 is the multiplication
      sign), have their small letter 32 places on\<close>
  "lower_char c =
     (let n = (of_char c :: nat)
      in if (65 \<le> n \<and> n \<le> 90) \<or> (192 \<le> n \<and> n \<le> 222 \<and> n \<noteq> 215) then char_of (n + 32) else c)"

definition upper_char :: "char \<Rightarrow> char" where
  \<comment> \<open>\<open>a\<close> to \<open>z\<close>, and the small letters from 0xE0 to 0xFE (0xF7 is the division sign),
      have their capital letter 32 places back. The upper case of the three other small
      letters below 256 (0xB5, 0xDF, 0xFF) is not a code point below 256; they are left as
      they are, and no string with one of them has \<open>ACTIVE\<close>, \<open>STARTING\<close>, \<open>STOPPED\<close> or
      \<open>STOPPING\<close> for its upper case in Python either.\<close>
  "upper_char c =
     (let n = (of_char c :: nat)
      in if (97 \<le> n \<and> n \<le> 122) \<or> (224 \<le> n \<and> n \<le> 254 \<and> n \<noteq> 247) then char_of (n - 32) else c)"

definition lower :: "string \<Rightarrow> string" where
  "lower s = map lower_char s"

definition upper :: "string \<Rightarrow> string" where
  "upper s = map upper_char s"

fun split :: "char \<Rightarrow> string \<Rightarrow> string list" where
  \<comment> \<open>\<open>s.split(sep)\<close> for a separator of one character: one more piece than separators.\<close>
  "split sep [] = [[]]"
| "split sep (c # cs) =
     (if c = sep then [] # split sep cs
      else (case split sep cs of [] \<Rightarrow> [[c]] | t # ts \<Rightarrow> (c # t) # ts))"

fun join :: "string \<Rightarrow> string list \<Rightarrow> string" where
  \<comment> \<open>\<open>sep.join(xs)\<close>\<close>
  "join sep [] = []"
| "join sep [x] = x"
| "join sep (x # y # ys) = x @ sep @ join sep (y # ys)"

definition startswith :: "string \<Rightarrow> string \<Rightarrow> bool" where
  "startswith s p = (take (length p) s = p)"

definition endswith :: "string \<Rightarrow> string \<Rightarrow> bool" where
  "endswith s p = (length p \<le> length s \<and> drop (length s - length p) s = p)"

fun replace :: "string \<Rightarrow> string \<Rightarrow> string \<Rightarrow> string" where
  \<comment> \<open>\<open>s.replace(old, new)\<close>, written \<open>replace old new s\<close>: every occurrence of \<open>old\<close>, found
      from the left without overlap.\<close>
  "replace old new [] = (if old = [] then new else [])"
| "replace old new (c # cs) =
     (if old = [] then new @ c # replace old new cs
      else if startswith (c # cs) old then new @ replace old new (drop (length old - 1) cs)
      else c # replace old new cs)"

definition is_digit :: "char \<Rightarrow> bool" where
  "is_digit c = (let n = (of_char c :: nat) in 48 \<le> n \<and> n \<le> 57)"

definition digit_value :: "char \<Rightarrow> nat" where
  "digit_value c = of_char c - 48"

fun digits_tail :: "string \<Rightarrow> nat \<Rightarrow> nat option" where
  \<comment> \<open>the rest of a decimal literal after a digit: digits, each optionally preceded by
      one underscore\<close>
  "digits_tail [] acc = Some acc"
| "digits_tail (c # cs) acc =
     (if is_digit c then digits_tail cs (acc * 10 + digit_value c)
      else if c = CHR ''_'' then
        (case cs of
           [] \<Rightarrow> None
         | d # ds \<Rightarrow> if is_digit d then digits_tail ds (acc * 10 + digit_value d) else None)
      else None)"

definition decimal_literal :: "string \<Rightarrow> nat option" where
  "decimal_literal s =
     (case s of
        [] \<Rightarrow> None
      | c # cs \<Rightarrow> if is_digit c then digits_tail cs (digit_value c) else None)"

definition int_max_str_digits :: nat where
  \<comment> \<open>the default of \<open>sys.int_max_str_digits\<close>\<close>
  "int_max_str_digits = 4300"

definition py_int :: "string \<Rightarrow> int option" where
  \<comment> \<open>\<open>int(s)\<close> in base 10; \<open>None\<close> stands for the \<open>ValueError\<close>. Surrounding
      whitespace, one sign, digits with single underscores between them; longer literals
      than \<open>int_max_str_digits\<close> are refused. Below 256 the decimal digits are \<open>0\<close> to
      \<open>9\<close>.\<close>
  "py_int s =
     (let t = strip s in
      if length (filter is_digit t) > int_max_str_digits then None
      else case t of
        [] \<Rightarrow> None
      | c # cs \<Rightarrow>
          if c = CHR ''-'' then map_option (\<lambda>n. - int n) (decimal_literal cs)
          else if c = CHR ''+'' then map_option int (decimal_literal cs)
          else map_option int (decimal_literal t))"

section \<open>Exceptions\<close>

datatype exn =
    ValueError string
  | OverflowError
  | ImportError
  | ModuleNotFoundError
  | AttributeError
  | ZoneInfoNotFoundError
  | OtherException string

section \<open>Name lists and weekday sets\<close>

definition csv_tokens :: "string \<Rightarrow> string list" where
  \<comment> \<open>\<open>_csv_tokens\<close>: the generator's items in order.\<close>
  "csv_tokens raw = filter (\<lambda>token. token \<noteq> []) (map strip (split CHR '','' raw))"

fun parse_app_names_loop :: "string list \<Rightarrow> string set \<Rightarrow> string list \<Rightarrow> string list" where
  \<comment> \<open>the \<open>for candidate in ...\<close> loop of \<open>parse_app_names\<close> over \<open>seen\<close> and \<open>names\<close>\<close>
  "parse_app_names_loop [] seen names = names"
| "parse_app_names_loop (candidate # rest) seen names =
     (if candidate \<in> seen then parse_app_names_loop rest seen names
      else parse_app_names_loop rest (insert candidate seen) (names @ [candidate]))"

definition parse_app_names :: "string \<Rightarrow> string list" where
  "parse_app_names raw = parse_app_names_loop (csv_tokens raw) {} []"

definition invalid_weekday_error :: "string \<Rightarrow> string" where
  \<comment> \<open>\<open>INVALID_WEEKDAY_ERROR.format(token=token)\<close>\<close>
  "invalid_weekday_error token =
     ''Invalid weekday '' @ CHR 0x27 # token @ CHR 0x27 # ''. Expected integers in the range 0..6.''"

fun parse_active_days_loop :: "string list \<Rightarrow> int set \<Rightarrow> exn + int set" where
  "parse_active_days_loop [] active_days = Inr active_days"
| "parse_active_days_loop (token # rest) active_days =
     (case py_int token of
        None \<Rightarrow> Inl (ValueError (invalid_weekday_error token))
      | Some day \<Rightarrow>
          if day < 0 \<or> day > 6 then Inl (ValueError (invalid_weekday_error token))
          else parse_active_days_loop rest (insert day active_days))"

definition parse_active_days :: "string \<Rightarrow> exn + int set" where
  "parse_active_days raw =
     (if lower (strip raw) \<in> {'''', ''all''} then Inr {0, 1, 2, 3, 4, 5, 6}
      else case parse_active_days_loop (csv_tokens raw) {} of
        Inl e \<Rightarrow> Inl e
      | Inr active_days \<Rightarrow>
          if active_days = {} then Inl (ValueError ''At least one active day must be configured.'')
          else Inr active_days)"

text \<open>
  The specification's wording of the two parsers, to compare the code with:
  \<open>first_seen\<close> keeps each element where it first occurs, and
  \<open>spec_parse_active_days\<close> takes the shortcut for the empty string and for \<open>all\<close> in
  any case, and the comma-separated path for every other input.
\<close>

fun first_seen :: "'a list \<Rightarrow> 'a list" where
  "first_seen [] = []"
| "first_seen (x # xs) = x # first_seen (filter (\<lambda>y. y \<noteq> x) xs)"

definition spec_parse_resource_names :: "string \<Rightarrow> string list" where
  "spec_parse_resource_names raw =
     first_seen (filter (\<lambda>token. token \<noteq> []) (map strip (split CHR '','' raw)))"

definition token_path :: "string \<Rightarrow> exn + int set" where
  \<comment> \<open>the comma-separated path of \<open>parse_active_days\<close> alone\<close>
  "token_path raw =
     (case parse_active_days_loop (csv_tokens raw) {} of
        Inl e \<Rightarrow> Inl e
      | Inr active_days \<Rightarrow>
          if active_days = {} then Inl (ValueError ''At least one active day must be configured.'')
          else Inr active_days)"

definition spec_parse_active_days :: "string \<Rightarrow> exn + int set" where
  "spec_parse_active_days raw =
     (if raw = '''' \<or> lower raw = ''all'' then Inr {0, 1, 2, 3, 4, 5, 6} else token_path raw)"

definition day_token :: "string \<Rightarrow> bool" where
  \<comment> \<open>the token is an integer literal with a value in [0,6]\<close>
  "day_token token = (case py_int token of None \<Rightarrow> False | Some day \<Rightarrow> 0 \<le> day \<and> day \<le> 6)"

definition day_of :: "string \<Rightarrow> int" where
  \<comment> \<open>the integer a token stands for (0 where it stands for none)\<close>
  "day_of token = (case py_int token of None \<Rightarrow> 0 | Some day \<Rightarrow> day)"

section \<open>Dates and times\<close>

text \<open>
  The \<open>datetime\<close> objects of the standard library, as far as \<open>cli.py\<close> uses them: the
  calendar and clock fields, and \<open>tzinfo\<close>. What \<open>datetime.fromisoformat\<close> returns has
  for \<open>tzinfo\<close> either nothing (\<open>None\<close>, a naive value) or a fixed offset from UTC
  (\<open>Some offset\<close>, a \<open>datetime.timezone\<close>); what \<open>resolve_now\<close> returns has a
  \<open>ZoneInfo\<close>. Durations (\<open>timedelta\<close>) are integers, in microseconds.
\<close>

record 'tz datetime =
  year :: int
  month :: int
  day :: int
  hour :: int
  minute :: int
  second :: int
  microsecond :: int
  tzinfo :: 'tz

record zone =
  key :: string
  utcoffset_at :: "int \<Rightarrow> int"
    \<comment> \<open>the offset from UTC in force at an instant, itself given in UTC as microseconds
        since 0001-01-01T00:00:00: the zone's table of transitions\<close>

definition is_leap :: "int \<Rightarrow> bool" where
  "is_leap y = (y mod 4 = 0 \<and> (y mod 100 \<noteq> 0 \<or> y mod 400 = 0))"

definition days_before_year :: "int \<Rightarrow> int" where
  "days_before_year y = (let y1 = y - 1 in y1 * 365 + y1 div 4 - y1 div 100 + y1 div 400)"

definition DAYS_IN_MONTH :: "int list" where
  "DAYS_IN_MONTH = [-1, 31, 28, 31, 30, 31, 30, 31, 31, 30, 31, 30, 31]"

definition DAYS_BEFORE_MONTH :: "int list" where
  "DAYS_BEFORE_MONTH = [-1, 0, 31, 59, 90, 120, 151, 181, 212, 243, 273, 304, 334]"

definition days_in_month :: "int \<Rightarrow> int \<Rightarrow> int" where
  "days_in_month y m = (if m = 2 \<and> is_leap y then 29 else DAYS_IN_MONTH ! nat m)"

definition days_before_month :: "int \<Rightarrow> int \<Rightarrow> int" where
  "days_before_month y m = DAYS_BEFORE_MONTH ! nat m + (if m > 2 \<and> is_leap y then 1 else 0)"

definition ymd2ord :: "int \<Rightarrow> int \<Rightarrow> int \<Rightarrow> int" where
  \<comment> \<open>the ordinal of a date, 0001-01-01 being day 1\<close>
  "ymd2ord y m d = days_before_year y + days_before_month y m + d"

definition month_and_day :: "bool \<Rightarrow> int \<Rightarrow> int \<times> int" where
  \<comment> \<open>the month and the day of the month of the day \<open>n\<close> of a year, counted from 0: an
      estimate of the month that is right or one too large, then put right\<close>
  "month_and_day leapyear n =
     (let m = (n + 50) div 32;
          preceding = DAYS_BEFORE_MONTH ! nat m + (if m > 2 \<and> leapyear then 1 else 0)
      in if preceding > n
         then let m = m - 1;
                  preceding = preceding - (DAYS_IN_MONTH ! nat m + (if m = 2 \<and> leapyear then 1 else 0))
              in (m, n - preceding + 1)
         else (m, n - preceding + 1))"

definition ord2ymd :: "int \<Rightarrow> int \<times> int \<times> int" where
  \<comment> \<open>the date of an ordinal: the cycles of 400, 100 and 4 years and the years in them\<close>
  "ord2ymd ordinal =
     (let n = ordinal - 1;
          n400 = n div 146097; n = n mod 146097;
          n100 = n div 36524; n = n mod 36524;
          n4 = n div 1461; n = n mod 1461;
          n1 = n div 365; n = n mod 365;
          y = n400 * 400 + 1 + n100 * 100 + n4 * 4 + n1
      in if n1 = 4 \<or> n100 = 4 then (y - 1, 12, 31)
         else
           let leapyear = (n1 = 3 \<and> (n4 \<noteq> 24 \<or> n100 = 3))
           in (case month_and_day leapyear n of (m, d) \<Rightarrow> (y, m, d)))"

definition weekday :: "'tz datetime \<Rightarrow> int" where
  \<comment> \<open>\<open>datetime.weekday()\<close>: Monday is 0, Sunday is 6\<close>
  "weekday dt = (ymd2ord (year dt) (month dt) (day dt) + 6) mod 7"

definition MAXORDINAL :: int where
  \<comment> \<open>the ordinal of 9999-12-31\<close>
  "MAXORDINAL = 3652059"

definition to_microseconds :: "'tz datetime \<Rightarrow> int" where
  \<comment> \<open>the fields as a duration since 0001-01-01T00:00:00\<close>
  "to_microseconds dt =
     ((((ymd2ord (year dt) (month dt) (day dt) - 1) * 24 + hour dt) * 60 + minute dt) * 60
        + second dt) * 1000000 + microsecond dt"

definition of_microseconds :: "int \<Rightarrow> 'tz \<Rightarrow> 'tz datetime" where
  "of_microseconds t tz =
     (let days = t div 86400000000; rest = t mod 86400000000;
          (y, m, d) = ord2ymd (days + 1);
          secs = rest div 1000000
      in \<lparr>year = y, month = m, day = d,
          hour = secs div 3600, minute = secs mod 3600 div 60, second = secs mod 60,
          microsecond = rest mod 1000000, tzinfo = tz\<rparr>)"

definition representable :: "int \<Rightarrow> bool" where
  \<comment> \<open>the duration since 0001-01-01T00:00:00 of an instant of the years 1 to 9999\<close>
  "representable t = (0 \<le> t \<and> t < MAXORDINAL * 86400000000)"

definition datetime_add :: "'tz datetime \<Rightarrow> int \<Rightarrow> exn + 'tz datetime" where
  \<comment> \<open>\<open>dt + timedelta\<close>: the fields moved by the duration, \<open>tzinfo\<close> kept; a result outside
      the years 1 to 9999 is an \<open>OverflowError\<close>\<close>
  "datetime_add dt delta =
     (let t = to_microseconds dt + delta
      in if representable t then Inr (of_microseconds t (tzinfo dt)) else Inl OverflowError)"

definition replace_tzinfo :: "'a datetime \<Rightarrow> 'tz \<Rightarrow> 'tz datetime" where
  \<comment> \<open>\<open>dt.replace(tzinfo=tz)\<close>\<close>
  "replace_tzinfo dt tz =
     \<lparr>year = year dt, month = month dt, day = day dt,
      hour = hour dt, minute = minute dt, second = second dt,
      microsecond = microsecond dt, tzinfo = tz\<rparr>"

definition fromutc :: "zone \<Rightarrow> zone datetime \<Rightarrow> exn + zone datetime" where
  \<comment> \<open>\<open>tz.fromutc(dt)\<close>: the fields of \<open>dt\<close> are read as UTC and moved by the zone's offset
      at that instant\<close>
  "fromutc tz dt = datetime_add dt (utcoffset_at tz (to_microseconds dt))"

definition astimezone :: "'a datetime \<Rightarrow> int \<Rightarrow> zone \<Rightarrow> exn + zone datetime" where
  \<comment> \<open>\<open>dt.astimezone(tz)\<close> for an aware \<open>dt\<close> whose \<open>utcoffset()\<close> is \<open>offset\<close>\<close>
  "astimezone dt offset tz =
     (case datetime_add (replace_tzinfo dt tz) (- offset) of
        Inl e \<Rightarrow> Inl e
      | Inr utc \<Rightarrow> fromutc tz utc)"

definition datetime_now :: "int \<Rightarrow> zone \<Rightarrow> exn + zone datetime" where
  \<comment> \<open>\<open>datetime.now(tz)\<close> when the clock reads \<open>clock\<close> (UTC, microseconds since
      0001-01-01T00:00:00)\<close>
  "datetime_now clock tz = fromutc tz (of_microseconds clock tz)"

section \<open>The schedule\<close>

definition resolve_action :: "'tz datetime \<Rightarrow> int \<Rightarrow> int \<Rightarrow> int set \<Rightarrow> string" where
  "resolve_action now_local start_hour end_hour active_days =
     (if weekday now_local \<notin> active_days then ''stop''
      else if start_hour = end_hour then ''start''
      else
        let within_schedule =
              (if start_hour < end_hour
               then start_hour \<le> hour now_local \<and> hour now_local < end_hour
               else hour now_local \<ge> start_hour \<or> hour now_local < end_hour)
        in if within_schedule then ''start'' else ''stop'')"

definition invalid_now_error :: "string \<Rightarrow> string" where
  "invalid_now_error now_raw =
     ''Invalid --now value '' @ CHR 0x27 # now_raw @ CHR 0x27
       # ''. Use ISO-8601, e.g. 2026-02-08T15:30:00+01:00.''"

definition resolve_now ::
  "(string \<Rightarrow> int option datetime option) \<Rightarrow> int \<Rightarrow> string option \<Rightarrow> zone \<Rightarrow> exn + zone datetime" where
  \<comment> \<open>\<open>resolve_now(now_raw, tz=tz)\<close>, given \<open>datetime.fromisoformat\<close> (\<open>None\<close> for its
      \<open>ValueError\<close>) and the reading of the clock\<close>
  "resolve_now fromisoformat clock now_raw tz =
     (case now_raw of
        None \<Rightarrow> datetime_now clock tz
      | Some raw \<Rightarrow>
          let normalized = strip raw;
              normalized = (if endswith normalized ''Z'' then butlast normalized @ ''+00:00''
                            else normalized)
          in case fromisoformat normalized of
               None \<Rightarrow> Inl (ValueError (invalid_now_error raw))
             | Some candidate \<Rightarrow>
                 (case tzinfo candidate of
                    None \<Rightarrow> Inr (replace_tzinfo candidate tz)
                  | Some offset \<Rightarrow> astimezone candidate offset tz))"

text \<open>
  An instance of \<open>datetime.fromisoformat\<close> for the examples: it reads the layout
  \<open>YYYY-MM-DDTHH:MM:SS\<close>, with or without an offset \<open>+HH:MM\<close> or \<open>-HH:MM\<close>, which every
  version of the library reads the same way, and refuses the rest.
\<close>

definition number :: "string \<Rightarrow> int option" where
  "number s =
     (if s \<noteq> [] \<and> list_all is_digit s
      then Some (int (foldl (\<lambda>acc c. acc * 10 + digit_value c) 0 s)) else None)"

definition fixed_date :: "string \<Rightarrow> (int \<times> int \<times> int) option" where
  "fixed_date s =
     (case (number (take 4 s), number (take 2 (drop 5 s)), number (take 2 (drop 8 s))) of
        (Some y, Some m, Some d) \<Rightarrow>
          if length s = 10 \<and> s ! 4 = CHR ''-'' \<and> s ! 7 = CHR ''-''
             \<and> 1 \<le> y \<and> 1 \<le> m \<and> m \<le> 12 \<and> 1 \<le> d \<and> d \<le> days_in_month y m
          then Some (y, m, d) else None
      | _ \<Rightarrow> None)"

definition fixed_clock :: "string \<Rightarrow> (int \<times> int \<times> int) option" where
  "fixed_clock s =
     (case (number (take 2 s), number (take 2 (drop 3 s)), number (take 2 (drop 6 s))) of
        (Some h, Some m, Some sec) \<Rightarrow>
          if length s = 8 \<and> s ! 2 = CHR '':'' \<and> s ! 5 = CHR '':''
             \<and> h \<le> 23 \<and> m \<le> 59 \<and> sec \<le> 59
          then Some (h, m, sec) else None
      | _ \<Rightarrow> None)"

definition fixed_offset :: "string \<Rightarrow> int option" where
  "fixed_offset s =
     (case (number (take 2 (drop 1 s)), number (take 2 (drop 4 s))) of
        (Some h, Some m) \<Rightarrow>
          if length s = 6 \<and> (s ! 0 = CHR ''+'' \<or> s ! 0 = CHR ''-'') \<and> s ! 3 = CHR '':''
             \<and> h \<le> 23 \<and> m \<le> 59
          then Some ((if s ! 0 = CHR ''-'' then - 1 else 1) * (h * 3600 + m * 60) * 1000000)
          else None
      | _ \<Rightarrow> None)"

definition fromisoformat_fixed :: "string \<Rightarrow> int option datetime option" where
  "fromisoformat_fixed s =
     (case (fixed_date (take 10 s), fixed_clock (take 8 (drop 11 s))) of
        (Some (y, m, d), Some (h, mi, sec)) \<Rightarrow>
          if length s = 19 \<and> s ! 10 = CHR ''T''
          then Some \<lparr>year = y, month = m, day = d, hour = h, minute = mi, second = sec,
                     microsecond = 0, tzinfo = None\<rparr>
          else if length s = 25 \<and> s ! 10 = CHR ''T''
          then (case fixed_offset (drop 19 s) of
                  None \<Rightarrow> None
                | Some offset \<Rightarrow>
                    Some \<lparr>year = y, month = m, day = d, hour = h, minute = mi, second = sec,
                          microsecond = 0, tzinfo = Some offset\<rparr>)
          else None
      | _ \<Rightarrow> None)"

definition fixed_zone :: "string \<Rightarrow> int \<Rightarrow> zone" where
  \<comment> \<open>a zone that keeps one offset all the time, such as UTC\<close>
  "fixed_zone k offset = \<lparr>key = k, utcoffset_at = (\<lambda>_. offset)\<rparr>"

definition sunday_at :: "int \<Rightarrow> unit datetime" where
  \<comment> \<open>an hour of Sunday 2026-02-08, the date of the repository's tests\<close>
  "sunday_at h = \<lparr>year = 2026, month = 2, day = 8, hour = h, minute = 0, second = 0,
                  microsecond = 0, tzinfo = ()\<rparr>"

definition ten_utc :: "int option datetime" where
  \<comment> \<open>2026-02-08T10:00:00+00:00\<close>
  "ten_utc = \<lparr>year = 2026, month = 2, day = 8, hour = 10, minute = 0, second = 0,
              microsecond = 0, tzinfo = Some 0\<rparr>"

definition ten_naive :: "int option datetime" where
  \<comment> \<open>2026-02-08T10:00:00\<close>
  "ten_naive = \<lparr>year = 2026, month = 2, day = 8, hour = 10, minute = 0, second = 0,
                microsecond = 0, tzinfo = None\<rparr>"

definition gmt_minus_1 :: zone where
  \<comment> \<open>the zone \<open>Etc/GMT-1\<close>, one hour east of UTC all year, as Europe/Stockholm is in
      February\<close>
  "gmt_minus_1 = fixed_zone ''Etc/GMT-1'' 3600000000"

definition late_west :: "int option datetime" where
  \<comment> \<open>2026-02-08T23:30:00-05:30\<close>
  "late_west = \<lparr>year = 2026, month = 2, day = 8, hour = 23, minute = 30, second = 0,
                microsecond = 0, tzinfo = Some (- 19800000000)\<rparr>"

definition first_half_hour :: "int option datetime" where
  \<comment> \<open>0001-01-01T00:30:00+01:00\<close>
  "first_half_hour = \<lparr>year = 1, month = 1, day = 1, hour = 0, minute = 30, second = 0,
                      microsecond = 0, tzinfo = Some 3600000000\<rparr>"

section \<open>The remote directory\<close>

text \<open>
  An application as \<open>client.apps.list()\<close> returns it. \<open>_state_name\<close> reads
  \<open>app.compute_status.state\<close>, where \<open>compute_status\<close> and \<open>state\<close> may each be missing
  or \<open>None\<close>. A state is either an object with a string \<open>name\<close>, as a member of the
  SDK's \<open>ComputeState\<close> enumeration is (\<open>EnumState\<close>), or any other object, given by
  what \<open>str\<close> makes of it (\<open>OtherState\<close>).
\<close>

datatype state = EnumState string | OtherState string

record compute_status =
  state :: "state option"

record app =
  name :: string
  compute_status :: "compute_status option"

definition RUNNING_STATES :: "string set" where
  "RUNNING_STATES = {''ACTIVE'', ''STARTING''}"

definition STOPPED_STATES :: "string set" where
  "STOPPED_STATES = {''STOPPED'', ''STOPPING''}"

definition state_name :: "app \<Rightarrow> string" where
  \<comment> \<open>\<open>_state_name\<close>\<close>
  "state_name a =
     (case compute_status a of
        None \<Rightarrow> ''UNKNOWN''
      | Some status \<Rightarrow>
          (case state status of
             None \<Rightarrow> ''UNKNOWN''
           | Some (EnumState n) \<Rightarrow> upper n
           | Some (OtherState s) \<Rightarrow> upper (replace ''ComputeState.'' [] s)))"

definition by_name :: "app list \<Rightarrow> string \<Rightarrow> app option" where
  \<comment> \<open>the dictionary \<open>{app.name: app for app in ...}\<close>: a later entry replaces an earlier
      one of the same name\<close>
  "by_name listing = fold (\<lambda>a m. m(name a \<mapsto> a)) listing Map.empty"

fun select_loop ::
  "(string \<Rightarrow> app option) \<Rightarrow> string list \<Rightarrow> app list \<Rightarrow> string list \<Rightarrow> app list \<times> string list" where
  \<comment> \<open>the loop of \<open>_select_target_apps\<close> over \<open>targets\<close> and \<open>missing\<close>\<close>
  "select_loop m [] targets missing = (targets, missing)"
| "select_loop m (app_name # rest) targets missing =
     (case m app_name of
        None \<Rightarrow> select_loop m rest targets (missing @ [app_name])
      | Some a \<Rightarrow> select_loop m rest (targets @ [a]) missing)"

definition select_target_apps ::
  "exn + app list \<Rightarrow> string list \<Rightarrow> exn + app list \<times> string list" where
  \<comment> \<open>\<open>_select_target_apps\<close>, given what \<open>client.apps.list()\<close> does: it raises or it
      returns the listing\<close>
  "select_target_apps listing app_names =
     (case listing of
        Inl e \<Rightarrow> Inl e
      | Inr apps \<Rightarrow> Inr (select_loop (by_name apps) app_names [] []))"

section \<open>The run\<close>

text \<open>
  The namespace that \<open>argparse\<close> hands to \<open>main\<close>, one field for each option of
  \<open>build_parser\<close>.
\<close>

record args =
  opt_app_names :: string
  opt_timezone :: string
  opt_start_hour :: int
  opt_end_hour :: int
  opt_active_days :: string
  opt_action :: string
  opt_now :: "string option"
  opt_output :: string
  opt_profile :: "string option"
  opt_dry_run :: bool
  opt_ignore_missing_apps :: bool
  opt_verbose :: bool

text \<open>
  The summary dictionary of \<open>_summary_payload\<close>, one field for each key; the key
  \<open>active_days\<close> is present only in automatic mode. \<open>time_local\<close> holds the instant that
  the source serialises with \<open>isoformat()\<close>.
\<close>

record payload =
  key_action :: string
  key_action_mode :: string
  key_apps_changed :: nat
  key_apps_evaluated :: nat
  key_apps_requested :: "string list"
  key_dry_run :: bool
  key_end_hour :: int
  key_exit_code :: int
  key_failures :: nat
  key_missing_apps :: "string list"
  key_output :: string
  key_start_hour :: int
  key_time_local :: "zone datetime"
  key_timezone :: string
  key_active_days :: "int list option"

definition summary_payload ::
  "string \<Rightarrow> args \<Rightarrow> zone datetime \<Rightarrow> string list \<Rightarrow> nat \<Rightarrow> nat \<Rightarrow> int \<Rightarrow> nat \<Rightarrow> string list
     \<Rightarrow> int set option \<Rightarrow> payload" where
  \<comment> \<open>\<open>_summary_payload\<close>\<close>
  "summary_payload action args now_local app_names apps_changed apps_evaluated exit_code
       failures missing_apps active_days =
     \<lparr>key_action = action,
      key_action_mode = opt_action args,
      key_apps_changed = apps_changed,
      key_apps_evaluated = apps_evaluated,
      key_apps_requested = app_names,
      key_dry_run = opt_dry_run args,
      key_end_hour = opt_end_hour args,
      key_exit_code = exit_code,
      key_failures = failures,
      key_missing_apps = missing_apps,
      key_output = opt_output args,
      key_start_hour = opt_start_hour args,
      key_time_local = now_local,
      key_timezone = opt_timezone args,
      key_active_days = map_option sorted_list_of_set active_days\<rparr>"

definition emit_result :: "string \<Rightarrow> payload \<Rightarrow> payload list" where
  \<comment> \<open>\<open>emit_result\<close>: what is printed, one entry for each line\<close>
  "emit_result output_format p = (if output_format = ''json'' then [p] else [])"

definition emit_and_return ::
  "string \<Rightarrow> int set option \<Rightarrow> string list \<Rightarrow> nat \<Rightarrow> nat \<Rightarrow> args \<Rightarrow> int \<Rightarrow> nat \<Rightarrow> string list
     \<Rightarrow> zone datetime \<Rightarrow> payload \<times> payload list \<times> int" where
  \<comment> \<open>\<open>_emit_and_return\<close>: the summary it builds, what it prints and what it returns\<close>
  "emit_and_return action active_days app_names apps_changed apps_evaluated args exit_code
       failures missing_apps now_local =
     (let p = summary_payload action args now_local app_names apps_changed apps_evaluated
                exit_code failures missing_apps active_days
      in (p, emit_result (opt_output args) p, exit_code))"

text \<open>
  What \<open>main\<close> depends on outside the repository: the ISO-8601 parser and the clock of
  \<open>datetime\<close>, the zone database, and the Databricks SDK. \<open>sdk_import\<close> is what
  \<open>_workspace_client_class()\<close> raises, if anything; \<open>sdk_client\<close> is what constructing the
  client with the given profile raises, if anything; \<open>sdk_apps_list\<close> is what
  \<open>client.apps.list()\<close> raises or returns; \<open>sdk_start_and_wait\<close> and
  \<open>sdk_stop_and_wait\<close> take the state of the remote system, of any type \<open>'r\<close>, to what
  the call raises, if anything, and the state it leaves.
\<close>

record 'r world =
  lib_fromisoformat :: "string \<Rightarrow> int option datetime option"
  lib_clock :: int
  lib_zoneinfo :: "string \<Rightarrow> exn + zone"
  sdk_import :: "exn option"
  sdk_client :: "string option \<Rightarrow> exn option"
  sdk_apps_list :: "exn + app list"
  sdk_start_and_wait :: "string \<Rightarrow> 'r \<Rightarrow> exn option \<times> 'r"
  sdk_stop_and_wait :: "string \<Rightarrow> 'r \<Rightarrow> exn option \<times> 'r"

text \<open>
  How a run ends: \<open>parser.error\<close> prints its message and leaves with status 2
  (\<open>Usage\<close>), an exception that \<open>main\<close> does not catch leaves it (\<open>Raised\<close>), or
  \<open>main\<close> returns its exit code (\<open>Returned\<close>). A run is observed by the summary it
  built, by what it printed, by the transition calls it issued, each with the action, the
  name and what the call raised, and by the state it left the remote system in. The lines
  written to the log are not modelled.
\<close>

datatype exit = Usage string | Raised exn | Returned int

record 'r outcome =
  result :: exit
  report :: "payload option"
  stdout :: "payload list"
  calls :: "(string \<times> string \<times> exn option) list"
  remote :: 'r

definition ended :: "exit \<Rightarrow> 'r \<Rightarrow> 'r outcome" where
  \<comment> \<open>a run that ends without a summary and without a call\<close>
  "ended x r = \<lparr>result = x, report = None, stdout = [], calls = [], remote = r\<rparr>"

definition returned ::
  "(string \<times> string \<times> exn option) list \<Rightarrow> 'r \<Rightarrow> payload \<times> payload list \<times> int \<Rightarrow> 'r outcome" where
  \<comment> \<open>\<open>return _emit_and_return(...)\<close> after the given calls\<close>
  "returned issued r emitted =
     (case emitted of (p, printed, code) \<Rightarrow>
        \<lparr>result = Returned code, report = Some p, stdout = printed, calls = issued, remote = r\<rparr>)"

definition validate_hour :: "int \<Rightarrow> string \<Rightarrow> string option" where
  \<comment> \<open>\<open>_validate_hour\<close>: the message of \<open>parser.error\<close>, if it is called\<close>
  "validate_hour v flag =
     (if \<not> (0 \<le> v \<and> v \<le> 23) then Some (flag @ '' must be in the range 0..23.'') else None)"

definition client_profile :: "args \<Rightarrow> string option" where
  \<comment> \<open>the profile the client is constructed with: \<open>args.profile\<close> when it is neither
      \<open>None\<close> nor empty\<close>
  "client_profile args =
     (if opt_profile args \<noteq> None \<and> opt_profile args \<noteq> Some [] then opt_profile args else None)"

definition terminal_states :: "string \<Rightarrow> string set" where
  "terminal_states action = (if action = ''start'' then RUNNING_STATES else STOPPED_STATES)"

definition action_fn :: "'r world \<Rightarrow> string \<Rightarrow> string \<Rightarrow> 'r \<Rightarrow> exn option \<times> 'r" where
  "action_fn w action = (if action = ''start'' then sdk_start_and_wait w else sdk_stop_and_wait w)"

definition reconcile_step ::
  "'r world \<Rightarrow> bool \<Rightarrow> string \<Rightarrow> app
     \<Rightarrow> nat \<times> nat \<times> (string \<times> string \<times> exn option) list \<times> 'r
     \<Rightarrow> nat \<times> nat \<times> (string \<times> string \<times> exn option) list \<times> 'r" where
  \<comment> \<open>the body of \<open>for app in target_apps\<close>, on \<open>failures\<close>, \<open>updated\<close>, the calls issued
      so far and the remote state\<close>
  "reconcile_step w dry action a st =
     (case st of (failures, updated, issued, r) \<Rightarrow>
        let app_name = name a; current = state_name a
        in if current \<in> terminal_states action then (failures, updated, issued, r)
           else if \<not> dry then
             (case action_fn w action app_name r of
                (None, r') \<Rightarrow> (failures, updated + 1, issued @ [(action, app_name, None)], r')
              | (Some e, r') \<Rightarrow> (failures + 1, updated, issued @ [(action, app_name, Some e)], r'))
           else (failures, updated + 1, issued, r))"

fun reconcile ::
  "'r world \<Rightarrow> bool \<Rightarrow> string \<Rightarrow> app list
     \<Rightarrow> nat \<times> nat \<times> (string \<times> string \<times> exn option) list \<times> 'r
     \<Rightarrow> nat \<times> nat \<times> (string \<times> string \<times> exn option) list \<times> 'r" where
  "reconcile w dry action [] st = st"
| "reconcile w dry action (a # rest) st = reconcile w dry action rest (reconcile_step w dry action a st)"

definition main_reconcile ::
  "'r world \<Rightarrow> 'r \<Rightarrow> args \<Rightarrow> zone datetime \<Rightarrow> string list \<Rightarrow> int set option \<Rightarrow> string \<Rightarrow> 'r outcome" where
  \<comment> \<open>\<open>main\<close> from the import of the SDK to its end (lines 341 to 471)\<close>
  "main_reconcile w r args now_local app_names active_days action =
     (case sdk_import w of
        Some e \<Rightarrow>
          if e = ImportError \<or> e = ModuleNotFoundError
          then returned [] r (emit_and_return action active_days app_names 0 0 args 2 1 [] now_local)
          else ended (Raised e) r
      | None \<Rightarrow>
          (case sdk_client w (client_profile args) of
             Some e \<Rightarrow>
               returned [] r (emit_and_return action active_days app_names 0 0 args 2 1 [] now_local)
           | None \<Rightarrow>
               (case select_target_apps (sdk_apps_list w) app_names of
                  Inl e \<Rightarrow>
                    returned [] r
                      (emit_and_return action active_days app_names 0 0 args 2 1 [] now_local)
                | Inr (target_apps, missing_apps) \<Rightarrow>
                    if missing_apps \<noteq> [] \<and> \<not> opt_ignore_missing_apps args
                    then returned [] r
                      (emit_and_return action active_days app_names 0 (length target_apps) args 1 0
                         missing_apps now_local)
                    else if target_apps = []
                    then returned [] r
                      (emit_and_return action active_days app_names 0 0 args
                         (if opt_ignore_missing_apps args then 0 else 1) 0 missing_apps now_local)
                    else
                      (case reconcile w (opt_dry_run args) action target_apps (0, 0, [], r) of
                         (failures, updated, issued, r') \<Rightarrow>
                           returned issued r'
                             (emit_and_return action active_days app_names updated
                                (length target_apps) args (if failures \<noteq> 0 then 1 else 0) failures
                                missing_apps now_local)))))"

definition main_arguments ::
  "'r world \<Rightarrow> args \<Rightarrow> exit + zone datetime \<times> string list \<times> int set option \<times> string" where
  \<comment> \<open>\<open>main\<close> after \<open>parser.parse_args\<close> and up to the choice of the action (lines 296 to
      326): how the run ends there, or \<open>now_local\<close>, \<open>app_names\<close>, \<open>active_days\<close> and
      \<open>action\<close>\<close>
  "main_arguments w args =
     (case validate_hour (opt_start_hour args) ''--start-hour'' of
        Some message \<Rightarrow> Inl (Usage message)
      | None \<Rightarrow>
     (case validate_hour (opt_end_hour args) ''--end-hour'' of
        Some message \<Rightarrow> Inl (Usage message)
      | None \<Rightarrow>
     (let app_names = parse_app_names (opt_app_names args)
      in if app_names = [] then Inl (Usage ''--app-names must include at least one app name.'')
         else
           (case lib_zoneinfo w (opt_timezone args) of
              Inl e \<Rightarrow>
                if e = ZoneInfoNotFoundError
                then Inl (Usage (''Unknown timezone '' @ CHR 0x27 # opt_timezone args @ CHR 0x27 # ''.''))
                else Inl (Raised e)
            | Inr tz \<Rightarrow>
                (case resolve_now (lib_fromisoformat w) (lib_clock w) (opt_now args) tz of
                   Inl (ValueError message) \<Rightarrow> Inl (Usage message)
                 | Inl e \<Rightarrow> Inl (Raised e)
                 | Inr now_local \<Rightarrow>
                     if opt_action args = ''auto''
                     then
                       (case parse_active_days (opt_active_days args) of
                          Inl (ValueError message) \<Rightarrow> Inl (Usage (''--active-days invalid: '' @ message))
                        | Inl e \<Rightarrow> Inl (Raised e)
                        | Inr active_days \<Rightarrow>
                            Inr (now_local, app_names, Some active_days,
                                 resolve_action now_local (opt_start_hour args) (opt_end_hour args)
                                   active_days))
                     else Inr (now_local, app_names, None, opt_action args))))))"

definition main :: "'r world \<Rightarrow> 'r \<Rightarrow> args \<Rightarrow> 'r outcome" where
  \<comment> \<open>\<open>main\<close> after \<open>parser.parse_args\<close>, on the remote state \<open>r\<close>\<close>
  "main w r args =
     (case main_arguments w args of
        Inl x \<Rightarrow> ended x r
      | Inr (now_local, app_names, active_days, action) \<Rightarrow>
          main_reconcile w r args now_local app_names active_days action)"

definition failed_call :: "string \<times> string \<times> exn option \<Rightarrow> bool" where
  \<comment> \<open>the call raised\<close>
  "failed_call c = (snd (snd c) \<noteq> None)"

definition needs_change :: "string \<Rightarrow> app \<Rightarrow> bool" where
  \<comment> \<open>the application is not in a terminal state of the action\<close>
  "needs_change action a = (state_name a \<notin> terminal_states action)"

text \<open>
  A remote directory and command lines for the examples: the directory lists what it is
  given, starting \<open>app-b\<close> fails, every other call succeeds and is recorded in the remote
  state. \<open>test_args\<close> is the command line of the repository's test of \<open>main\<close>.
\<close>

definition app_in :: "string \<Rightarrow> string \<Rightarrow> app" where
  "app_in n s = \<lparr>name = n, compute_status = Some \<lparr>state = Some (EnumState s)\<rparr>\<rparr>"

definition test_world :: "app list \<Rightarrow> string list world" where
  "test_world listing =
     \<lparr>lib_fromisoformat = fromisoformat_fixed,
      lib_clock = 63906141600000000,
      lib_zoneinfo = (\<lambda>k. if k = ''UTC'' then Inr (fixed_zone ''UTC'' 0) else Inl ZoneInfoNotFoundError),
      sdk_import = None,
      sdk_client = (\<lambda>_. None),
      sdk_apps_list = Inr listing,
      sdk_start_and_wait =
        (\<lambda>n r. if n = ''app-b'' then (Some (OtherException ''start failed''), r) else (None, r @ [n])),
      sdk_stop_and_wait = (\<lambda>n r. (None, r @ [n]))\<rparr>"

definition test_args :: args where
  "test_args =
     \<lparr>opt_app_names = ''app-a'', opt_timezone = ''UTC'', opt_start_hour = 8, opt_end_hour = 17,
      opt_active_days = ''all'', opt_action = ''start'',
      opt_now = Some ''2026-02-08T10:00:00+00:00'', opt_output = ''json'', opt_profile = None,
      opt_dry_run = True, opt_ignore_missing_apps = False, opt_verbose = False\<rparr>"

section \<open>Facts about the string functions\<close>

lemma dropWhile_head: "dropWhile P s = [] \<or> \<not> P (hd (dropWhile P s))"
  by (induction s) auto

lemma dropWhile_snoc_keep: "\<not> P a \<Longrightarrow> \<exists>zs. dropWhile P (ys @ [a]) = zs @ [a]"
  by (induction ys) auto

lemma rstrip_keeps_head:
  assumes "\<not> P a"
  shows "\<exists>bs. rev (dropWhile P (rev (a # as))) = a # bs"
proof -
  obtain zs where "dropWhile P (rev as @ [a]) = zs @ [a]"
    using dropWhile_snoc_keep [of P a "rev as"] assms by blast
  then show ?thesis by simp
qed

lemma dropWhile_rev_stable:
  assumes "d = [] \<or> \<not> P (hd d)"
  shows "dropWhile P (rev (dropWhile P (rev d))) = rev (dropWhile P (rev d))"
proof (cases d)
  case Nil
  then show ?thesis by simp
next
  case (Cons a as)
  with assms have na: "\<not> P a" by simp
  obtain bs where "rev (dropWhile P (rev d)) = a # bs"
    using rstrip_keeps_head [of P a as] na Cons by blast
  then show ?thesis using na by simp
qed

lemma strip_Nil: "strip [] = []"
  by (simp add: strip_def)

lemma strip_idem: "strip (strip s) = strip s"
  unfolding strip_def by (simp add: dropWhile_rev_stable [OF dropWhile_head])

lemma set_strip: "set (strip s) \<subseteq> set s"
proof
  fix x assume "x \<in> set (strip s)"
  then have "x \<in> set (dropWhile is_space (rev (dropWhile is_space s)))"
    by (simp add: strip_def)
  then have "x \<in> set (dropWhile is_space s)"
    using set_dropWhileD by fastforce
  then show "x \<in> set s" by (rule set_dropWhileD)
qed

lemma split_not_Nil: "split sep s \<noteq> []"
  by (induction s) (auto split: list.splits)

lemma split_no_sep: "t \<in> set (split sep s) \<Longrightarrow> sep \<notin> set t"
  by (induction s arbitrary: t) (auto split: list.splits if_splits)

lemma split_sep_free: "sep \<notin> set t \<Longrightarrow> split sep t = [t]"
  by (induction t) auto

lemma split_append_sep: "sep \<notin> set t \<Longrightarrow> split sep (t @ sep # s) = t # split sep s"
  by (induction t) (auto simp: split_not_Nil split: list.splits)

lemma split_join:
  "ts \<noteq> [] \<Longrightarrow> \<forall>t\<in>set ts. sep \<notin> set t \<Longrightarrow> split sep (join [sep] ts) = ts"
proof (induction ts)
  case Nil
  then show ?case by simp
next
  case (Cons t ts)
  show ?case
  proof (cases ts)
    case Nil
    then show ?thesis using Cons.prems by (simp add: split_sep_free)
  next
    case (Cons u us)
    then have "split sep (join [sep] ts) = ts" using Cons.IH Cons.prems by simp
    then show ?thesis using Cons Cons.prems by (simp add: split_append_sep)
  qed
qed

section \<open>Resource names\<close>

lemma loop_first_seen:
  "parse_app_names_loop xs seen names = names @ first_seen (filter (\<lambda>x. x \<notin> seen) xs)"
  by (induction xs arbitrary: seen names) (auto simp: conj_commute)

lemma set_first_seen: "set (first_seen xs) = set xs"
  by (induction xs rule: first_seen.induct) auto

lemma distinct_first_seen: "distinct (first_seen xs)"
  by (induction xs rule: first_seen.induct) (auto simp: set_first_seen)

lemma filter_neq_absent: "a \<notin> set xs \<Longrightarrow> filter (\<lambda>y. y \<noteq> a) xs = xs"
  by (induction xs) auto

lemma first_seen_distinct: "distinct xs \<Longrightarrow> first_seen xs = xs"
  by (induction xs) (simp_all add: filter_neq_absent)

lemma parse_app_names_first_seen: "parse_app_names raw = first_seen (csv_tokens raw)"
  by (simp add: parse_app_names_def loop_first_seen)

lemma csv_token_shape:
  assumes "t \<in> set (csv_tokens raw)"
  shows "t \<noteq> [] \<and> CHR '','' \<notin> set t \<and> strip t = t"
proof -
  from assms obtain u where u: "u \<in> set (split CHR '','' raw)" and t: "t = strip u" and ne: "t \<noteq> []"
    by (auto simp: csv_tokens_def)
  have "CHR '','' \<notin> set u" using u by (rule split_no_sep)
  then have "CHR '','' \<notin> set t" using set_strip [of u] t by blast
  moreover have "strip t = t" using t by (simp add: strip_idem)
  ultimately show ?thesis using ne by blast
qed

lemma csv_tokens_join:
  assumes "\<forall>t\<in>set ts. t \<noteq> [] \<and> CHR '','' \<notin> set t \<and> strip t = t"
  shows "csv_tokens (join '','' ts) = ts"
proof (cases ts)
  case Nil
  then show ?thesis by (simp add: csv_tokens_def strip_Nil)
next
  case (Cons u us)
  then have "split CHR '','' (join '','' ts) = ts"
    using assms split_join [of ts "CHR '',''"] by simp
  moreover have "map strip ts = ts" using assms by (simp add: map_idI)
  moreover have "filter (\<lambda>token. token \<noteq> []) ts = ts" using assms by (simp add: filter_id_conv)
  ultimately show ?thesis by (simp add: csv_tokens_def)
qed

lemma parse_app_names_rejoin:
  "parse_app_names (join '','' (parse_app_names raw)) = parse_app_names raw"
proof -
  let ?ns = "parse_app_names raw"
  have "\<forall>t\<in>set ?ns. t \<noteq> [] \<and> CHR '','' \<notin> set t \<and> strip t = t"
    using csv_token_shape by (simp add: parse_app_names_first_seen set_first_seen)
  then have "csv_tokens (join '','' ?ns) = ?ns" by (rule csv_tokens_join)
  moreover have "distinct ?ns" by (simp add: parse_app_names_first_seen distinct_first_seen)
  ultimately show ?thesis
    by (simp add: parse_app_names_first_seen [of "join '','' ?ns"] first_seen_distinct)
qed

lemma parse_app_names_example: "parse_app_names ''a,b,a, ,c'' = [''a'', ''b'', ''c'']"
  by code_simp

lemma parse_app_names_empty: "parse_app_names '''' = []"
  by code_simp

lemma parse_app_names_no_break_space:
  "parse_app_names (''a'' @ [CHR 0xA0] @ '',a'') = [''a'']"
  by code_simp

text \<open>
  Claim C7. \<open>parse_app_names\<close> is total (it has no error result) and returns what the
  specification describes: the input split on commas, each piece trimmed, the empty pieces
  dropped, and of equal names only the first kept, in the order of the input. The result
  has no duplicates, the empty input gives the empty list, and parsing the comma-join of a
  result gives that result again. The specification's example \<open>a,b,a, ,c\<close> gives
  \<open>a\<close>, \<open>b\<close>, \<open>c\<close>; and \<open>a\<close> followed by a no-break space is the name \<open>a\<close>.
\<close>

theorem parse_app_names_dedup_idempotent:
  "parse_app_names raw = spec_parse_resource_names raw
   \<and> distinct (parse_app_names raw)
   \<and> set (parse_app_names raw) = set (csv_tokens raw)
   \<and> parse_app_names '''' = []
   \<and> parse_app_names (join '','' (parse_app_names raw)) = parse_app_names raw
   \<and> parse_app_names ''a,b,a, ,c'' = [''a'', ''b'', ''c'']
   \<and> parse_app_names (''a'' @ [CHR 0xA0] @ '',a'') = [''a'']"
proof -
  have "parse_app_names raw = spec_parse_resource_names raw"
    by (simp add: parse_app_names_first_seen spec_parse_resource_names_def csv_tokens_def)
  moreover have "distinct (parse_app_names raw)"
    by (simp add: parse_app_names_first_seen distinct_first_seen)
  moreover have "set (parse_app_names raw) = set (csv_tokens raw)"
    by (simp add: parse_app_names_first_seen set_first_seen)
  ultimately show ?thesis
    using parse_app_names_rejoin [of raw] parse_app_names_example parse_app_names_empty
      parse_app_names_no_break_space
    by blast
qed

section \<open>Weekday sets\<close>

lemma active_days_loop_result:
  "parse_active_days_loop ts acc =
     (case find (\<lambda>t. \<not> day_token t) ts of
        Some t \<Rightarrow> Inl (ValueError (invalid_weekday_error t))
      | None \<Rightarrow> Inr (acc \<union> day_of ` set ts))"
proof (induction ts arbitrary: acc)
  case Nil
  then show ?case by simp
next
  case (Cons t ts)
  show ?case
  proof (cases "py_int t")
    case None
    then show ?thesis by (simp add: day_token_def)
  next
    case (Some d)
    then show ?thesis using Cons.IH [of "insert d acc"]
      by (auto simp: day_token_def day_of_def split: option.splits)
  qed
qed

lemma token_path_result:
  "token_path raw =
     (case find (\<lambda>t. \<not> day_token t) (csv_tokens raw) of
        Some t \<Rightarrow> Inl (ValueError (invalid_weekday_error t))
      | None \<Rightarrow>
          if csv_tokens raw = [] then Inl (ValueError ''At least one active day must be configured.'')
          else Inr (day_of ` set (csv_tokens raw)))"
  by (simp add: token_path_def active_days_loop_result split: option.splits)

lemma parse_active_days_cases:
  "parse_active_days raw =
     (if lower (strip raw) \<in> {'''', ''all''} then Inr {0, 1, 2, 3, 4, 5, 6} else token_path raw)"
  by (simp add: parse_active_days_def token_path_def)

lemma strip_all_space: "(\<forall>c\<in>set raw. is_space c) \<Longrightarrow> strip raw = []"
proof -
  assume "\<forall>c\<in>set raw. is_space c"
  then have "dropWhile is_space raw = []" by simp
  then show ?thesis by (simp add: strip_def del: dropWhile_eq_Nil_conv)
qed

lemma strip_some_char: "\<exists>c\<in>set raw. \<not> is_space c \<Longrightarrow> strip raw \<noteq> []"
proof -
  assume a: "\<exists>c\<in>set raw. \<not> is_space c"
  then have "dropWhile is_space raw \<noteq> []" by simp
  then obtain a as where d: "dropWhile is_space raw = a # as" by (cases "dropWhile is_space raw") auto
  then have "\<not> is_space a" using dropWhile_head [of is_space raw] by simp
  then obtain bs where "rev (dropWhile is_space (rev (a # as))) = a # bs"
    using rstrip_keeps_head [of is_space a as] by blast
  then show ?thesis by (simp add: strip_def d)
qed

lemma set_dropWhile_cover: "set s \<subseteq> set (dropWhile P s) \<union> {c. P c}"
  by (induction s) auto

lemma set_strip_cover: "set s \<subseteq> set (strip s) \<union> {c. is_space c}"
proof -
  have "set s \<subseteq> set (dropWhile is_space s) \<union> {c. is_space c}" by (rule set_dropWhile_cover)
  moreover have "set (rev (dropWhile is_space s))
      \<subseteq> set (dropWhile is_space (rev (dropWhile is_space s))) \<union> {c. is_space c}"
    by (rule set_dropWhile_cover)
  ultimately show ?thesis by (auto simp: strip_def)
qed

lemma comma_not_space: "\<not> is_space CHR '',''"
  by (simp add: is_space_def)

lemma lower_all_no_comma: "lower s = ''all'' \<Longrightarrow> CHR '','' \<notin> set s"
proof
  assume l: "lower s = ''all''" and c: "CHR '','' \<in> set s"
  have "lower_char CHR '','' = CHR '',''" by (simp add: lower_char_def)
  then have "CHR '','' \<in> set (lower s)" using c by (force simp: lower_def)
  then show False using l by simp
qed

lemma tokens_of_all:
  assumes "lower (strip raw) = ''all''"
  shows "csv_tokens raw = [strip raw]"
proof -
  have "CHR '','' \<notin> set (strip raw)" using assms by (rule lower_all_no_comma)
  then have "CHR '','' \<notin> set raw" using set_strip_cover [of raw] comma_not_space by blast
  then have "split CHR '','' raw = [raw]" by (rule split_sep_free)
  moreover have "strip raw \<noteq> []" using assms by (auto simp: lower_def)
  ultimately show ?thesis by (simp add: csv_tokens_def)
qed

text \<open>
  Claim C6, as stated, fails on a blank input. The input of one space is neither the empty
  string nor \<open>all\<close>, so the claim sends it down the comma-separated path, where no
  token is left and the empty set is an error; the code trims the input before it compares
  and returns all seven weekdays.
\<close>

theorem parse_active_days_whitespace_counterexample:
  "'' '' \<noteq> '''' \<and> lower '' '' \<noteq> ''all''
   \<and> parse_active_days '' '' = Inr {0, 1, 2, 3, 4, 5, 6}
   \<and> spec_parse_active_days '' '' = Inl (ValueError ''At least one active day must be configured.'')"
  by code_simp

text \<open>
  Claim C6, amended. When the input, trimmed of surrounding whitespace and lowercased, is
  empty or \<open>all\<close>, \<open>parse_active_days\<close> returns the seven weekdays. Otherwise it
  splits on commas, trims the pieces and drops the empty ones; the first token that is not
  an integer in [0,6] makes it fail with the \<open>ValueError\<close> whose message contains that
  token; with no such token it fails when no token is left and returns the set of the
  tokens' integers otherwise. The specification's four examples hold.
\<close>

theorem parse_active_days_after_trimming:
  "(lower (strip raw) \<in> {'''', ''all''} \<longrightarrow> parse_active_days raw = Inr {0, 1, 2, 3, 4, 5, 6})
   \<and> (lower (strip raw) \<notin> {'''', ''all''} \<longrightarrow>
        (case find (\<lambda>token. \<not> day_token token) (csv_tokens raw) of
           Some token \<Rightarrow> parse_active_days raw = Inl (ValueError (invalid_weekday_error token))
         | None \<Rightarrow>
             if csv_tokens raw = []
             then parse_active_days raw = Inl (ValueError ''At least one active day must be configured.'')
             else parse_active_days raw = Inr (day_of ` set (csv_tokens raw))))
   \<and> (\<exists>before after. invalid_weekday_error token = before @ token @ after)
   \<and> parse_active_days ''all'' = Inr {0, 1, 2, 3, 4, 5, 6}
   \<and> parse_active_days '''' = Inr {0, 1, 2, 3, 4, 5, 6}
   \<and> parse_active_days ''0,2,4'' = Inr {0, 2, 4}
   \<and> parse_active_days ''7'' = Inl (ValueError (invalid_weekday_error ''7''))"
proof -
  have a: "lower (strip raw) \<in> {'''', ''all''} \<longrightarrow> parse_active_days raw = Inr {0, 1, 2, 3, 4, 5, 6}"
    by (simp add: parse_active_days_cases)
  have b: "lower (strip raw) \<notin> {'''', ''all''} \<longrightarrow>
        (case find (\<lambda>token. \<not> day_token token) (csv_tokens raw) of
           Some token \<Rightarrow> parse_active_days raw = Inl (ValueError (invalid_weekday_error token))
         | None \<Rightarrow>
             if csv_tokens raw = []
             then parse_active_days raw = Inl (ValueError ''At least one active day must be configured.'')
             else parse_active_days raw = Inr (day_of ` set (csv_tokens raw)))"
    by (simp add: parse_active_days_cases token_path_result split: option.splits)
  have c: "\<exists>before after. invalid_weekday_error token = before @ token @ after"
    by (rule exI [of _ "''Invalid weekday '' @ [CHR 0x27]"],
        rule exI [of _ "CHR 0x27 # ''. Expected integers in the range 0..6.''"],
        simp add: invalid_weekday_error_def)
  have d: "parse_active_days ''all'' = Inr {0, 1, 2, 3, 4, 5, 6}" by code_simp
  have e: "parse_active_days '''' = Inr {0, 1, 2, 3, 4, 5, 6}" by code_simp
  have f: "parse_active_days ''0,2,4'' = Inr {0, 2, 4}" by code_simp
  have g: "parse_active_days ''7'' = Inl (ValueError (invalid_weekday_error ''7''))" by code_simp
  show ?thesis
    by (rule conjI [OF a conjI [OF b conjI [OF c conjI [OF d conjI [OF e conjI [OF f g]]]]]])
qed

text \<open>
  Claim C6, amended, at \<open>ALL\<close> between a no-break space and a blank (the shortcut)
  and at \<open>"1, x,9"\<close> (the first offending token is \<open>x\<close>).
\<close>

theorem parse_active_days_after_trimming_witness:
  "lower (strip (CHR 0xA0 # ''ALL '')) \<in> {'''', ''all''}
   \<and> parse_active_days (CHR 0xA0 # ''ALL '') = Inr {0, 1, 2, 3, 4, 5, 6}
   \<and> lower (strip ''1, x,9'') \<notin> {'''', ''all''}
   \<and> parse_active_days ''1, x,9'' = Inl (ValueError (invalid_weekday_error ''x''))"
proof -
  have h1: "lower (strip (CHR 0xA0 # ''ALL '')) \<in> {'''', ''all''}" by code_simp
  have h2: "lower (strip ''1, x,9'') \<notin> {'''', ''all''}" by code_simp
  have h3: "find (\<lambda>token. \<not> day_token token) (csv_tokens ''1, x,9'') = Some ''x''" by code_simp
  note t1 = parse_active_days_after_trimming [of "CHR 0xA0 # ''ALL ''" "''x''"]
  note t2 = parse_active_days_after_trimming [of "''1, x,9''" "''x''"]
  have r1: "parse_active_days (CHR 0xA0 # ''ALL '') = Inr {0, 1, 2, 3, 4, 5, 6}"
    by (rule mp [OF conjunct1 [OF t1] h1])
  have r2: "parse_active_days ''1, x,9'' = Inl (ValueError (invalid_weekday_error ''x''))"
    using mp [OF conjunct1 [OF conjunct2 [OF t2]] h2] by (simp only: h3 option.case)
  show ?thesis
    by (rule conjI [OF h1 conjI [OF r1 conjI [OF h2 r2]]])
qed

text \<open>
  Claim C10. An input of whitespace only (the empty input included) gives all seven
  weekdays, since the input is trimmed before it is compared with the empty string and
  with \<open>all\<close>. An input that has a character other than whitespace and yields no token,
  such as \<open>","\<close> or \<open>" , "\<close>, fails with the error of the empty set.
\<close>

theorem parse_active_days_blank_input:
  "((\<forall>c\<in>set raw. is_space c) \<longrightarrow> parse_active_days raw = Inr {0, 1, 2, 3, 4, 5, 6})
   \<and> ((\<exists>c\<in>set raw. \<not> is_space c) \<and> csv_tokens raw = [] \<longrightarrow>
        parse_active_days raw = Inl (ValueError ''At least one active day must be configured.''))
   \<and> parse_active_days '','' = Inl (ValueError ''At least one active day must be configured.'')
   \<and> parse_active_days '' , '' = Inl (ValueError ''At least one active day must be configured.'')"
proof -
  have a: "(\<forall>c\<in>set raw. is_space c) \<longrightarrow> parse_active_days raw = Inr {0, 1, 2, 3, 4, 5, 6}"
    by (simp add: parse_active_days_cases strip_all_space lower_def)
  have b: "(\<exists>c\<in>set raw. \<not> is_space c) \<and> csv_tokens raw = [] \<longrightarrow>
        parse_active_days raw = Inl (ValueError ''At least one active day must be configured.'')"
  proof
    assume h: "(\<exists>c\<in>set raw. \<not> is_space c) \<and> csv_tokens raw = []"
    then have "strip raw \<noteq> []" using strip_some_char by blast
    then have n1: "lower (strip raw) \<noteq> ''''" by (simp add: lower_def)
    have n2: "lower (strip raw) \<noteq> ''all''" using tokens_of_all [of raw] h by auto
    show "parse_active_days raw = Inl (ValueError ''At least one active day must be configured.'')"
      using n1 n2 h by (simp add: parse_active_days_cases token_path_result)
  qed
  have c: "parse_active_days '','' = Inl (ValueError ''At least one active day must be configured.'')"
    by code_simp
  have d: "parse_active_days '' , '' = Inl (ValueError ''At least one active day must be configured.'')"
    by code_simp
  show ?thesis
    by (rule conjI [OF a conjI [OF b conjI [OF c d]]])
qed

text \<open>
  Claim C10 at a no-break space, a tab and a blank, and at \<open>" ,, "\<close>.
\<close>

theorem parse_active_days_blank_input_witness:
  "parse_active_days [CHR 0xA0, CHR 0x09, CHR 0x20] = Inr {0, 1, 2, 3, 4, 5, 6}
   \<and> (\<exists>c\<in>set '' ,, ''. \<not> is_space c) \<and> csv_tokens '' ,, '' = []
   \<and> parse_active_days '' ,, '' = Inl (ValueError ''At least one active day must be configured.'')"
proof -
  have h1: "\<forall>c\<in>set [CHR 0xA0, CHR 0x09, CHR 0x20]. is_space c" by code_simp
  have h2: "\<exists>c\<in>set '' ,, ''. \<not> is_space c" by code_simp
  have h3: "csv_tokens '' ,, '' = []" by code_simp
  note t1 = parse_active_days_blank_input [of "[CHR 0xA0, CHR 0x09, CHR 0x20]"]
  note t2 = parse_active_days_blank_input [of "'' ,, ''"]
  have r1: "parse_active_days [CHR 0xA0, CHR 0x09, CHR 0x20] = Inr {0, 1, 2, 3, 4, 5, 6}"
    by (rule mp [OF conjunct1 [OF t1] h1])
  have r2: "parse_active_days '' ,, '' = Inl (ValueError ''At least one active day must be configured.'')"
    by (rule mp [OF conjunct1 [OF conjunct2 [OF t2]] conjI [OF h2 h3]])
  show ?thesis
    by (rule conjI [OF r1 conjI [OF h2 conjI [OF h3 r2]]])
qed

section \<open>The action of a schedule\<close>


lemma start_not_stop: "''start'' \<noteq> ''stop''"
  by simp

text \<open>
  Claim C1. Whatever the hours and the set of active days: on a weekday that is not
  active \<open>resolve_action\<close> gives \<open>stop\<close>, before it looks at the hour; on an active
  weekday it gives \<open>start\<close> when start and end hour are equal, gives \<open>start\<close> exactly
  for the hours from the start hour up to and without the end hour when the start hour is
  the smaller, and gives \<open>start\<close> exactly for the hours from the start hour on and the
  hours before the end hour when the start hour is the greater. What is not \<open>start\<close> is
  \<open>stop\<close>.
\<close>

theorem resolve_action_window:
  "(weekday instant \<notin> activeDays \<longrightarrow>
      resolve_action instant startHour endHour activeDays = ''stop'')
   \<and> (weekday instant \<in> activeDays \<and> startHour = endHour \<longrightarrow>
      resolve_action instant startHour endHour activeDays = ''start'')
   \<and> (weekday instant \<in> activeDays \<and> startHour < endHour \<longrightarrow>
      (resolve_action instant startHour endHour activeDays = ''start'')
        = (startHour \<le> hour instant \<and> hour instant < endHour))
   \<and> (weekday instant \<in> activeDays \<and> startHour > endHour \<longrightarrow>
      (resolve_action instant startHour endHour activeDays = ''start'')
        = (hour instant \<ge> startHour \<or> hour instant < endHour))
   \<and> (resolve_action instant startHour endHour activeDays \<noteq> ''start'' \<longrightarrow>
      resolve_action instant startHour endHour activeDays = ''stop'')"
  by (simp add: resolve_action_def Let_def)

lemma weekday_sunday_at: "weekday (sunday_at h) = 6"
  by (simp add: sunday_at_def weekday_def ymd2ord_def days_before_year_def
      days_before_month_def DAYS_BEFORE_MONTH_def is_leap_def)

lemma hour_sunday_at: "hour (sunday_at h) = h"
  by (simp add: sunday_at_def)

text \<open>
  Claim C1 on Sunday 2026-02-08: with Monday alone active the action is \<open>stop\<close>; with
  equal hours it is \<open>start\<close>; with the window from 8 to 17 the hour 8 starts and the
  hour 17 stops; with the window from 22 to 6 the hour 23 starts and the hour 10 stops.
\<close>

theorem resolve_action_window_witness:
  "resolve_action (sunday_at 10) 8 17 {0} = ''stop''
   \<and> resolve_action (sunday_at 10) 9 9 {0, 1, 2, 3, 4, 5, 6} = ''start''
   \<and> resolve_action (sunday_at 8) 8 17 {0, 1, 2, 3, 4, 5, 6} = ''start''
   \<and> resolve_action (sunday_at 17) 8 17 {0, 1, 2, 3, 4, 5, 6} = ''stop''
   \<and> resolve_action (sunday_at 23) 22 6 {0, 1, 2, 3, 4, 5, 6} = ''start''
   \<and> resolve_action (sunday_at 10) 22 6 {0, 1, 2, 3, 4, 5, 6} = ''stop''"
proof -
  let ?all = "{0, 1, 2, 3, 4, 5, 6} :: int set"
  have out: "weekday (sunday_at 10) \<notin> {0}" by (simp add: weekday_sunday_at)
  have r1: "resolve_action (sunday_at 10) 8 17 {0} = ''stop''"
    by (rule mp [OF conjunct1 [OF resolve_action_window [of "sunday_at 10" "{0}" 8 17]] out])
  have act: "weekday (sunday_at h) \<in> ?all" for h by (simp add: weekday_sunday_at)
  have r2: "resolve_action (sunday_at 10) 9 9 ?all = ''start''"
    using conjunct1 [OF conjunct2 [OF resolve_action_window [of "sunday_at 10" ?all 9 9]]] act
    by blast
  note day = conjunct1 [OF conjunct2 [OF conjunct2 [OF resolve_action_window [of _ ?all 8 17]]]]
  note night = conjunct1 [OF conjunct2 [OF conjunct2 [OF conjunct2 [OF resolve_action_window [of _ ?all 22 6]]]]]
  note other = conjunct2 [OF conjunct2 [OF conjunct2 [OF conjunct2 [OF resolve_action_window]]]]
  have "(resolve_action (sunday_at 8) 8 17 ?all = ''start'')
      = (8 \<le> hour (sunday_at 8) \<and> hour (sunday_at 8) < 17)"
    using day [of "sunday_at 8"] act [of 8] by (simp only: simp_thms)
  then have r3: "resolve_action (sunday_at 8) 8 17 ?all = ''start''"
    by (simp only: hour_sunday_at) simp
  have "(resolve_action (sunday_at 17) 8 17 ?all = ''start'')
      = (8 \<le> hour (sunday_at 17) \<and> hour (sunday_at 17) < 17)"
    using day [of "sunday_at 17"] act [of 17] by (simp only: simp_thms)
  then have "resolve_action (sunday_at 17) 8 17 ?all \<noteq> ''start''"
    by (simp only: hour_sunday_at) simp
  then have r4: "resolve_action (sunday_at 17) 8 17 ?all = ''stop''"
    by (rule mp [OF other, rotated])
  have "(resolve_action (sunday_at 23) 22 6 ?all = ''start'')
      = (hour (sunday_at 23) \<ge> 22 \<or> hour (sunday_at 23) < 6)"
    using night [of "sunday_at 23"] act [of 23] by (simp only: simp_thms)
  then have r5: "resolve_action (sunday_at 23) 22 6 ?all = ''start''"
    by (simp only: hour_sunday_at) simp
  have "(resolve_action (sunday_at 10) 22 6 ?all = ''start'')
      = (hour (sunday_at 10) \<ge> 22 \<or> hour (sunday_at 10) < 6)"
    using night [of "sunday_at 10"] act [of 10] by (simp only: simp_thms)
  then have "resolve_action (sunday_at 10) 22 6 ?all \<noteq> ''start''"
    by (simp only: hour_sunday_at) simp
  then have r6: "resolve_action (sunday_at 10) 22 6 ?all = ''stop''"
    by (rule mp [OF other, rotated])
  show ?thesis
    by (rule conjI [OF r1 conjI [OF r2 conjI [OF r3 conjI [OF r4 conjI [OF r5 r6]]]]])
qed

section \<open>The calendar\<close>


lemma year_days:
  fixes a b c d :: int
  assumes "0 \<le> a" "0 \<le> b" "b \<le> 3" "0 \<le> c" "c \<le> 24" "0 \<le> d" "d \<le> 3"
  shows "days_before_year (400 * a + 100 * b + 4 * c + d + 1)
       = 146097 * a + 36524 * b + 1461 * c + 365 * d"
proof -
  let ?y1 = "400 * a + 100 * b + 4 * c + d"
  have d4: "?y1 div 4 = 100 * a + 25 * b + c"
    by (rule int_div_pos_eq [where r = d]) (use assms in simp_all)
  have d100: "?y1 div 100 = 4 * a + b"
    by (rule int_div_pos_eq [where r = "4 * c + d"]) (use assms in simp_all)
  have d400: "?y1 div 400 = a"
    by (rule int_div_pos_eq [where r = "100 * b + 4 * c + d"]) (use assms in simp_all)
  show ?thesis
    unfolding days_before_year_def Let_def using d4 d100 d400 by simp
qed

lemma year_leap:
  fixes a b c d :: int
  assumes "0 \<le> a" "0 \<le> b" "b \<le> 3" "0 \<le> c" "c \<le> 24" "0 \<le> d" "d \<le> 3"
  shows "is_leap (400 * a + 100 * b + 4 * c + d + 1) = (d = 3 \<and> (c \<noteq> 24 \<or> b = 3))"
proof -
  let ?y = "400 * a + 100 * b + 4 * c + d + 1"
  have m4: "(?y mod 4 = 0) = (d = 3)"
  proof (cases "d = 3")
    case True
    have "?y mod 4 = 0"
      by (rule int_mod_pos_eq [where q = "100 * a + 25 * b + c + 1"]) (use True in simp_all)
    then show ?thesis using True by simp
  next
    case False
    have "?y mod 4 = d + 1"
      by (rule int_mod_pos_eq [where q = "100 * a + 25 * b + c"]) (use False assms in simp_all)
    then show ?thesis using False assms by simp
  qed
  have m100: "(?y mod 100 = 0) = (c = 24 \<and> d = 3)"
  proof (cases "c = 24 \<and> d = 3")
    case True
    have "?y mod 100 = 0"
      by (rule int_mod_pos_eq [where q = "4 * a + b + 1"]) (use True in simp_all)
    then show ?thesis using True by simp
  next
    case False
    have "?y mod 100 = 4 * c + d + 1"
      by (rule int_mod_pos_eq [where q = "4 * a + b"]) (use False assms in auto)
    then show ?thesis using False assms by auto
  qed
  have m400: "(?y mod 400 = 0) = (b = 3 \<and> c = 24 \<and> d = 3)"
  proof (cases "b = 3 \<and> c = 24 \<and> d = 3")
    case True
    have "?y mod 400 = 0"
      by (rule int_mod_pos_eq [where q = "a + 1"]) (use True in simp_all)
    then show ?thesis using True by simp
  next
    case False
    have "?y mod 400 = 100 * b + 4 * c + d + 1"
      by (rule int_mod_pos_eq [where q = a]) (use False assms in auto)
    then show ?thesis using False assms by auto
  qed
  show ?thesis unfolding is_leap_def m4 m100 m400 by auto
qed



lemma one_to_twelve:
  fixes k :: int
  shows "1 \<le> k \<Longrightarrow> k \<le> 12 \<Longrightarrow> k \<in> {1, 2, 3, 4, 5, 6, 7, 8, 9, 10, 11, 12}"
  by simp arith

lemma month_estimate:
  fixes n :: int
  assumes "0 \<le> n" "n < 366"
  shows "(n + 50) div 32 \<in> {1, 2, 3, 4, 5, 6, 7, 8, 9, 10, 11, 12}
     \<and> 32 * ((n + 50) div 32) \<le> n + 50 \<and> n + 50 < 32 * ((n + 50) div 32) + 32"
proof -
  let ?k = "(n + 50) div 32"
  have e: "n + 50 = 32 * ?k + (n + 50) mod 32" by simp
  have r: "0 \<le> (n + 50) mod 32" "(n + 50) mod 32 < 32" by simp_all
  have lo: "32 * ?k \<le> n + 50" using e r by linarith
  have hi: "n + 50 < 32 * ?k + 32" using e r by linarith
  have "1 \<le> ?k" "?k \<le> 12" using lo hi assms by linarith+
  then have "?k \<in> {1, 2, 3, 4, 5, 6, 7, 8, 9, 10, 11, 12}" by (rule one_to_twelve)
  then show ?thesis using lo hi by blast
qed

lemma month_and_day_valid:
  fixes n :: int
  assumes "0 \<le> n" and "n < 365 \<or> (leapyear \<and> n < 366)"
  shows "case month_and_day leapyear n of (m, d) \<Rightarrow>
           1 \<le> m \<and> m \<le> 12 \<and> 1 \<le> d
           \<and> d \<le> (if m = 2 \<and> leapyear then 29 else DAYS_IN_MONTH ! nat m)
           \<and> DAYS_BEFORE_MONTH ! nat m + (if m > 2 \<and> leapyear then 1 else 0) + d = n + 1"
proof -
  have n: "n < 366" using assms by auto
  note k = month_estimate [OF assms(1) n]
  from k consider "(n + 50) div 32 = 1" | "(n + 50) div 32 = 2" | "(n + 50) div 32 = 3"
    | "(n + 50) div 32 = 4" | "(n + 50) div 32 = 5" | "(n + 50) div 32 = 6"
    | "(n + 50) div 32 = 7" | "(n + 50) div 32 = 8" | "(n + 50) div 32 = 9"
    | "(n + 50) div 32 = 10" | "(n + 50) div 32 = 11" | "(n + 50) div 32 = 12"
    by auto
  then show ?thesis
  proof cases
    case 1
    then show ?thesis using k assms
      by (cases leapyear) (simp_all add: month_and_day_def DAYS_BEFORE_MONTH_def DAYS_IN_MONTH_def)
  next
    case 2
    then show ?thesis using k assms
      by (cases leapyear) (simp_all add: month_and_day_def DAYS_BEFORE_MONTH_def DAYS_IN_MONTH_def)
  next
    case 3
    then show ?thesis using k assms
      by (cases leapyear) (simp_all add: month_and_day_def DAYS_BEFORE_MONTH_def DAYS_IN_MONTH_def)
  next
    case 4
    then show ?thesis using k assms
      by (cases leapyear) (simp_all add: month_and_day_def DAYS_BEFORE_MONTH_def DAYS_IN_MONTH_def)
  next
    case 5
    then show ?thesis using k assms
      by (cases leapyear) (simp_all add: month_and_day_def DAYS_BEFORE_MONTH_def DAYS_IN_MONTH_def)
  next
    case 6
    then show ?thesis using k assms
      by (cases leapyear) (simp_all add: month_and_day_def DAYS_BEFORE_MONTH_def DAYS_IN_MONTH_def)
  next
    case 7
    then show ?thesis using k assms
      by (cases leapyear) (simp_all add: month_and_day_def DAYS_BEFORE_MONTH_def DAYS_IN_MONTH_def)
  next
    case 8
    then show ?thesis using k assms
      by (cases leapyear) (simp_all add: month_and_day_def DAYS_BEFORE_MONTH_def DAYS_IN_MONTH_def)
  next
    case 9
    then show ?thesis using k assms
      by (cases leapyear) (simp_all add: month_and_day_def DAYS_BEFORE_MONTH_def DAYS_IN_MONTH_def)
  next
    case 10
    then show ?thesis using k assms
      by (cases leapyear) (simp_all add: month_and_day_def DAYS_BEFORE_MONTH_def DAYS_IN_MONTH_def)
  next
    case 11
    then show ?thesis using k assms
      by (cases leapyear) (simp_all add: month_and_day_def DAYS_BEFORE_MONTH_def DAYS_IN_MONTH_def)
  next
    case 12
    then show ?thesis using k assms
      by (cases leapyear) (simp_all add: month_and_day_def DAYS_BEFORE_MONTH_def DAYS_IN_MONTH_def)
  qed
qed

lemma quotient_bounds:
  fixes x k q :: int
  assumes "0 \<le> x" "0 < k" "x < k * q + k"
  shows "0 \<le> x div k \<and> x div k \<le> q \<and> x = k * (x div k) + x mod k \<and> 0 \<le> x mod k \<and> x mod k < k"
proof -
  have e: "x = k * (x div k) + x mod k" by simp
  have r: "0 \<le> x mod k" "x mod k < k" using assms(2) by simp_all
  have "0 \<le> x div k" using assms(1,2) by (simp add: pos_imp_zdiv_nonneg_iff)
  moreover have "x div k \<le> q"
  proof (rule ccontr)
    assume "\<not> x div k \<le> q"
    then have "q + 1 \<le> x div k" by simp
    then have "k * (q + 1) \<le> k * (x div k)" using assms(2) by (simp add: mult_left_mono)
    then show False using e r assms(3) by (simp add: algebra_simps)
  qed
  ultimately show ?thesis using e r by blast
qed

lemma ord2ymd_valid:
  assumes "1 \<le> n"
  shows "case ord2ymd n of (y, m, d) \<Rightarrow>
           ymd2ord y m d = n \<and> 1 \<le> y \<and> 1 \<le> m \<and> m \<le> 12 \<and> 1 \<le> d \<and> d \<le> days_in_month y m"
proof -
  define n0 where "n0 = n - 1"
  define a where "a = n0 div 146097"
  define r1 where "r1 = n0 mod 146097"
  define b where "b = r1 div 36524"
  define r2 where "r2 = r1 mod 36524"
  define c where "c = r2 div 1461"
  define r3 where "r3 = r2 mod 1461"
  define d where "d = r3 div 365"
  define e where "e = r3 mod 365"
  have n0: "0 \<le> n0" using assms by (simp add: n0_def)
  have qa: "0 \<le> a \<and> a \<le> n0 \<and> n0 = 146097 * a + r1 \<and> 0 \<le> r1 \<and> r1 < 146097"
    unfolding a_def r1_def using quotient_bounds [of n0 146097 n0] n0 by simp
  have qb: "0 \<le> b \<and> b \<le> 4 \<and> r1 = 36524 * b + r2 \<and> 0 \<le> r2 \<and> r2 < 36524"
    unfolding b_def r2_def using quotient_bounds [of r1 36524 4] qa by simp
  have qc: "0 \<le> c \<and> c \<le> 24 \<and> r2 = 1461 * c + r3 \<and> 0 \<le> r3 \<and> r3 < 1461"
    unfolding c_def r3_def using quotient_bounds [of r2 1461 24] qb by simp
  have qd: "0 \<le> d \<and> d \<le> 4 \<and> r3 = 365 * d + e \<and> 0 \<le> e \<and> e < 365"
    unfolding d_def e_def using quotient_bounds [of r3 365 4] qc by simp
  have u: "ord2ymd n =
      (if d = 4 \<or> b = 4 then (400 * a + 100 * b + 4 * c + d, 12, 31)
       else case month_and_day (d = 3 \<and> (c \<noteq> 24 \<or> b = 3)) e of
              (m, dd) \<Rightarrow> (400 * a + 100 * b + 4 * c + d + 1, m, dd))"
    unfolding ord2ymd_def Let_def
      n0_def [symmetric] a_def [symmetric] r1_def [symmetric] b_def [symmetric]
      r2_def [symmetric] c_def [symmetric] r3_def [symmetric] d_def [symmetric] e_def [symmetric]
    by (simp add: algebra_simps)
  have n: "n = 146097 * a + 36524 * b + 1461 * c + 365 * d + e + 1"
    using qa qb qc qd by (simp add: n0_def)
  show ?thesis
  proof (cases "b = 4")
    case True
    then have z: "r2 = 0" "c = 0" "d = 0" "e = 0" using qa qb qc qd by auto
    have y: "400 * a + 100 * b + 4 * c + d = 400 * a + 400"
      using True z by simp
    have eq: "400 * a + 100 * 3 + 4 * 24 + 3 + 1 = 400 * a + 400" by simp
    have eq2: "146097 * a + 36524 * 3 + 1461 * 24 + 365 * 3 = 146097 * a + 145731" by simp
    have "days_before_year (400 * a + 100 * 3 + 4 * 24 + 3 + 1)
        = 146097 * a + 36524 * 3 + 1461 * 24 + 365 * 3"
      using qa by (intro year_days) simp_all
    then have dy: "days_before_year (400 * a + 400) = 146097 * a + 145731"
      by (simp only: eq eq2)
    have "is_leap (400 * a + 100 * 3 + 4 * 24 + 3 + 1)"
      using year_leap [of a 3 24 3] qa by simp
    then have lp: "is_leap (400 * a + 400)"
      by (simp only: eq)
    show ?thesis
      unfolding u using True z qa n
      by (simp add: y ymd2ord_def dy days_before_month_def days_in_month_def lp
          DAYS_BEFORE_MONTH_def DAYS_IN_MONTH_def)
  next
    case b3: False
    then have b: "b \<le> 3" using qb by simp
    show ?thesis
    proof (cases "d = 4")
      case True
      then have z: "e = 0" "c \<le> 23" using qb qc qd by auto
      have y: "400 * a + 100 * b + 4 * c + d = 400 * a + 100 * b + 4 * c + 4"
        using True by simp
      have eq: "400 * a + 100 * b + 4 * c + 3 + 1 = 400 * a + 100 * b + 4 * c + 4" by simp
      have eq2: "146097 * a + 36524 * b + 1461 * c + 365 * 3
          = 1095 + (146097 * a + (36524 * b + 1461 * c))" by simp
      have "days_before_year (400 * a + 100 * b + 4 * c + 3 + 1)
          = 146097 * a + 36524 * b + 1461 * c + 365 * 3"
        using qa qb qc b by (intro year_days) simp_all
      then have dy: "days_before_year (400 * a + 100 * b + 4 * c + 4)
          = 1095 + (146097 * a + (36524 * b + 1461 * c))"
        by (simp only: eq eq2)
      have "is_leap (400 * a + 100 * b + 4 * c + 3 + 1)"
        using year_leap [of a b c 3] qa qb qc b z by simp
      then have lp: "is_leap (400 * a + 100 * b + 4 * c + 4)"
        by (simp only: eq)
      show ?thesis
        unfolding u using True z qa qb qc n
        by (simp add: y ymd2ord_def dy days_before_month_def days_in_month_def lp
            DAYS_BEFORE_MONTH_def DAYS_IN_MONTH_def)
    next
      case False
      then have d: "d \<le> 3" using qd by simp
      let ?y = "400 * a + 100 * b + 4 * c + d + 1"
      let ?leap = "d = 3 \<and> (c \<noteq> 24 \<or> b = 3)"
      have dy: "days_before_year ?y = 146097 * a + 36524 * b + 1461 * c + 365 * d"
        using qa qb qc qd b d by (intro year_days) simp_all
      have lp: "is_leap ?y = ?leap"
        using qa qb qc qd b d by (intro year_leap) simp_all
      obtain m dd where md: "month_and_day ?leap e = (m, dd)" by (cases "month_and_day ?leap e")
      have v: "1 \<le> m \<and> m \<le> 12 \<and> 1 \<le> dd
           \<and> dd \<le> (if m = 2 \<and> ?leap then 29 else DAYS_IN_MONTH ! nat m)
           \<and> DAYS_BEFORE_MONTH ! nat m + (if m > 2 \<and> ?leap then 1 else 0) + dd = e + 1"
        using month_and_day_valid [of e ?leap] qd md by simp
      have "ord2ymd n = (?y, m, dd)" unfolding u using False b3 md by simp
      moreover have "ymd2ord ?y m dd = n"
        unfolding ymd2ord_def dy days_before_month_def lp using v n by simp
      moreover have "dd \<le> days_in_month ?y m"
        unfolding days_in_month_def lp using v by simp
      moreover have "1 \<le> ?y" using qa qb qc qd by simp
      ultimately show ?thesis using v by simp
    qed
  qed
qed

lemma clock_sum:
  fixes h m s r secs :: int
  shows "secs = 3600 * h + r \<Longrightarrow> r = 60 * m + s \<Longrightarrow> (h * 60 + m) * 60 + s = secs"
  by simp

lemma clock_fields:
  fixes secs :: int
  assumes "0 \<le> secs" "secs < 86400"
  shows "((secs div 3600) * 60 + secs mod 3600 div 60) * 60 + secs mod 60 = secs
     \<and> 0 \<le> secs div 3600 \<and> secs div 3600 \<le> 23
     \<and> 0 \<le> secs mod 3600 div 60 \<and> secs mod 3600 div 60 \<le> 59
     \<and> 0 \<le> secs mod 60 \<and> secs mod 60 \<le> 59"
proof -
  have h: "0 \<le> secs div 3600 \<and> secs div 3600 \<le> 23
      \<and> secs = 3600 * (secs div 3600) + secs mod 3600
      \<and> 0 \<le> secs mod 3600 \<and> secs mod 3600 < 3600"
    using quotient_bounds [of secs 3600 23] assms by simp
  have m: "0 \<le> secs mod 3600 div 60 \<and> secs mod 3600 div 60 \<le> 59
      \<and> secs mod 3600 = 60 * (secs mod 3600 div 60) + secs mod 3600 mod 60
      \<and> 0 \<le> secs mod 3600 mod 60 \<and> secs mod 3600 mod 60 < 60"
    using quotient_bounds [of "secs mod 3600" 60 59] h by simp
  have s: "secs mod 3600 mod 60 = secs mod 60"
    by (rule mod_mod_cancel) simp
  have "((secs div 3600) * 60 + secs mod 3600 div 60) * 60 + secs mod 60 = secs"
    using h m unfolding s by (intro clock_sum [where r = "secs mod 3600"]) blast+
  moreover have "secs mod 60 \<le> 59" using m unfolding s by simp
  ultimately show ?thesis using h m unfolding s by blast
qed

lemma of_microseconds_valid:
  assumes "0 \<le> t"
  shows "to_microseconds (of_microseconds t z) = t
     \<and> tzinfo (of_microseconds t z) = z
     \<and> hour (of_microseconds t z) = t mod 86400000000 div 3600000000
     \<and> weekday (of_microseconds t z) = t div 86400000000 mod 7
     \<and> 1 \<le> year (of_microseconds t z)
     \<and> 1 \<le> month (of_microseconds t z) \<and> month (of_microseconds t z) \<le> 12
     \<and> 1 \<le> day (of_microseconds t z)
     \<and> day (of_microseconds t z)
         \<le> days_in_month (year (of_microseconds t z)) (month (of_microseconds t z))
     \<and> 0 \<le> hour (of_microseconds t z) \<and> hour (of_microseconds t z) \<le> 23
     \<and> 0 \<le> minute (of_microseconds t z) \<and> minute (of_microseconds t z) \<le> 59
     \<and> 0 \<le> second (of_microseconds t z) \<and> second (of_microseconds t z) \<le> 59
     \<and> 0 \<le> microsecond (of_microseconds t z) \<and> microsecond (of_microseconds t z) \<le> 999999"
proof -
  define days where "days = t div 86400000000"
  define rest where "rest = t mod 86400000000"
  define secs where "secs = rest div 1000000"
  define us where "us = rest mod 1000000"
  have qd: "0 \<le> days \<and> t = 86400000000 * days + rest \<and> 0 \<le> rest \<and> rest < 86400000000"
    unfolding days_def rest_def using quotient_bounds [of t 86400000000 t] assms by simp
  have qs: "0 \<le> secs \<and> secs \<le> 86399 \<and> rest = 1000000 * secs + us \<and> 0 \<le> us \<and> us < 1000000"
    unfolding secs_def us_def using quotient_bounds [of rest 1000000 86399] qd by simp
  note cf = clock_fields [of secs]
  obtain y m d where o: "ord2ymd (days + 1) = (y, m, d)" by (cases "ord2ymd (days + 1)")
  have v: "ymd2ord y m d = days + 1 \<and> 1 \<le> y \<and> 1 \<le> m \<and> m \<le> 12 \<and> 1 \<le> d \<and> d \<le> days_in_month y m"
    using ord2ymd_valid [of "days + 1"] qd o by simp
  have f: "of_microseconds t z =
      \<lparr>year = y, month = m, day = d,
       hour = secs div 3600, minute = secs mod 3600 div 60, second = secs mod 60,
       microsecond = us, tzinfo = z\<rparr>"
    unfolding of_microseconds_def Let_def
      days_def [symmetric] rest_def [symmetric] secs_def [symmetric] us_def [symmetric] o
    by simp
  have c: "((secs div 3600) * 60 + secs mod 3600 div 60) * 60 + secs mod 60 = secs"
    using cf qs by simp
  have "to_microseconds (of_microseconds t z)
      = (((days * 24 + secs div 3600) * 60 + secs mod 3600 div 60) * 60 + secs mod 60) * 1000000 + us"
    unfolding f to_microseconds_def using v by simp
  also have "\<dots> = (days * 86400 + (((secs div 3600) * 60 + secs mod 3600 div 60) * 60 + secs mod 60))
      * 1000000 + us"
    by (simp add: algebra_simps)
  also have "\<dots> = t" unfolding c using qd qs by simp
  finally have r: "to_microseconds (of_microseconds t z) = t" .
  have "rest div 3600000000 = rest div 1000000 div 3600"
    using zdiv_zmult2_eq [of 3600 rest 1000000] by simp
  then have h: "hour (of_microseconds t z) = t mod 86400000000 div 3600000000"
    unfolding f by (simp add: secs_def rest_def)
  have w: "weekday (of_microseconds t z) = t div 86400000000 mod 7"
    unfolding f weekday_def using v by (simp add: days_def)
  show ?thesis
    unfolding r h [symmetric] w unfolding f using v cf qs by simp
qed

lemma to_microseconds_replace_tzinfo: "to_microseconds (replace_tzinfo c tz) = to_microseconds c"
  by (simp add: to_microseconds_def replace_tzinfo_def)

lemma astimezone_converts:
  "astimezone c offset tz =
     (if representable (to_microseconds c - offset)
         \<and> representable (to_microseconds c - offset + utcoffset_at tz (to_microseconds c - offset))
      then Inr (of_microseconds
                  (to_microseconds c - offset + utcoffset_at tz (to_microseconds c - offset)) tz)
      else Inl OverflowError)"
proof (cases "representable (to_microseconds c - offset)")
  case False
  then show ?thesis
    by (simp add: astimezone_def datetime_add_def to_microseconds_replace_tzinfo)
next
  case True
  then have "0 \<le> to_microseconds c - offset" by (simp add: representable_def)
  then have r: "to_microseconds (of_microseconds (to_microseconds c - offset) tz)
        = to_microseconds c - offset"
      and z: "tzinfo (of_microseconds (to_microseconds c - offset) tz) = tz"
    using of_microseconds_valid [of "to_microseconds c - offset" tz] by blast+
  have t: "tzinfo (replace_tzinfo c tz) = tz" by (simp add: replace_tzinfo_def)
  show ?thesis
    using True
    by (simp add: astimezone_def datetime_add_def fromutc_def to_microseconds_replace_tzinfo r z t)
qed

section \<open>The evaluation instant\<close>

lemma resolve_now_unfold:
  "resolve_now fromisoformat clock (Some raw) tz =
     (case fromisoformat (if endswith (strip raw) ''Z'' then butlast (strip raw) @ ''+00:00'' else strip raw) of
        None \<Rightarrow> Inl (ValueError (invalid_now_error raw))
      | Some candidate \<Rightarrow>
          (case tzinfo candidate of
             None \<Rightarrow> Inr (replace_tzinfo candidate tz)
           | Some offset \<Rightarrow> astimezone candidate offset tz))"
  by (simp add: resolve_now_def Let_def)

lemma endswith_snoc: "endswith (body @ ''Z'') ''Z''"
  by (simp add: endswith_def)

lemma ten_utc_instant: "to_microseconds (replace_tzinfo ten_utc tz) = 63906141600000000"
  by (simp add: to_microseconds_def replace_tzinfo_def ten_utc_def ymd2ord_def
      days_before_year_def days_before_month_def DAYS_BEFORE_MONTH_def is_leap_def)

lemma of_microseconds_ten: "of_microseconds 63906141600000000 tz =
    \<lparr>year = 2026, month = 2, day = 8, hour = 10, minute = 0, second = 0, microsecond = 0, tzinfo = tz\<rparr>"
  by (simp add: of_microseconds_def ord2ymd_def month_and_day_def Let_def DAYS_BEFORE_MONTH_def
      DAYS_IN_MONTH_def)

lemma of_microseconds_eleven: "of_microseconds 63906145200000000 tz =
    \<lparr>year = 2026, month = 2, day = 8, hour = 11, minute = 0, second = 0, microsecond = 0, tzinfo = tz\<rparr>"
  by (simp add: of_microseconds_def ord2ymd_def month_and_day_def Let_def DAYS_BEFORE_MONTH_def
      DAYS_IN_MONTH_def)

lemma astimezone_ten_utc:
  assumes "utcoffset_at tz 63906141600000000 = 3600000000"
  shows "astimezone ten_utc 0 tz =
    Inr \<lparr>year = 2026, month = 2, day = 8, hour = 11, minute = 0, second = 0, microsecond = 0, tzinfo = tz\<rparr>"
proof -
  have utc: "datetime_add (replace_tzinfo ten_utc tz) 0 = Inr (replace_tzinfo ten_utc tz)"
    by (simp add: datetime_add_def representable_def ten_utc_instant MAXORDINAL_def of_microseconds_ten)
       (simp add: replace_tzinfo_def ten_utc_def)
  have "fromutc tz (replace_tzinfo ten_utc tz) = Inr (of_microseconds 63906145200000000 tz)"
    using assms by (simp add: fromutc_def datetime_add_def representable_def ten_utc_instant MAXORDINAL_def)
       (simp add: replace_tzinfo_def)
  then show ?thesis by (simp add: astimezone_def utc of_microseconds_eleven)
qed

text \<open>
  Claim C8, as stated, fails at the ends of the calendar. The override
  \<open>0001-01-01T00:30:00+01:00\<close> is parsed and has an offset, but in UTC the instant is half
  an hour before the year 1: resolved into UTC it is not converted, and \<open>resolve_now\<close>
  ends with an \<open>OverflowError\<close>.
\<close>

theorem resolve_now_overflow_counterexample:
  "map_option tzinfo (fromisoformat_fixed ''0001-01-01T00:30:00+01:00'') = Some (Some 3600000000)
   \<and> (case resolve_now fromisoformat_fixed 0 (Some ''0001-01-01T00:30:00+01:00'') (fixed_zone ''UTC'' 0) of
        Inl e \<Rightarrow> e = OverflowError
      | Inr r \<Rightarrow> False)"
  by code_simp

text \<open>
  Claim C8, amended. Let the override, trimmed, end in \<open>Z\<close>, and let \<open>text\<close> be the rest
  followed by \<open>+00:00\<close>; or let it not end in \<open>Z\<close>, and let \<open>text\<close> be the trimmed
  override. Then \<open>text\<close> is what \<open>resolve_now\<close> hands to the ISO-8601 parser. When the
  parser refuses it, \<open>resolve_now\<close> fails with the \<open>ValueError\<close> of the invalid value. A
  parsed instant without an offset is returned with the target zone as its \<open>tzinfo\<close>. For
  a parsed instant with an offset, let \<open>utc\<close> be the instant in UTC (the parsed fields less
  the offset) and \<open>local\<close> the time of the target zone at it (\<open>utc\<close> and the zone's offset
  at \<open>utc\<close>), both as microseconds since 0001-01-01T00:00:00: when both lie in the years 1
  to 9999, the result has the target zone, denotes \<open>local\<close>, and so has the hour and the
  weekday of \<open>local\<close> and valid calendar and clock fields; otherwise \<open>resolve_now\<close> ends
  with an \<open>OverflowError\<close>. The message of the \<open>ValueError\<close> contains the override as it
  was given, and tagging leaves every calendar and clock field as it was parsed. In a zone
  one hour east of UTC at that instant, \<open>2026-02-08T10:00:00+00:00\<close> resolves to the local
  hour 11.
\<close>

theorem resolve_now_override:
  "((strip raw = body @ ''Z'' \<and> text = body @ ''+00:00'')
      \<or> (\<not> endswith (strip raw) ''Z'' \<and> text = strip raw) \<longrightarrow>
      (fromisoformat text = None \<longrightarrow>
         resolve_now fromisoformat clock (Some raw) tz = Inl (ValueError (invalid_now_error raw)))
      \<and> (\<forall>c. fromisoformat text = Some c \<and> tzinfo c = None \<longrightarrow>
         resolve_now fromisoformat clock (Some raw) tz = Inr (replace_tzinfo c tz))
      \<and> (\<forall>c offset. fromisoformat text = Some c \<and> tzinfo c = Some offset \<longrightarrow>
         resolve_now fromisoformat clock (Some raw) tz = astimezone c offset tz)
      \<and> (\<forall>c offset utc local.
            fromisoformat text = Some c \<and> tzinfo c = Some offset
            \<and> utc = to_microseconds c - offset \<and> local = utc + utcoffset_at tz utc \<longrightarrow>
            (if representable utc \<and> representable local
             then \<exists>r. resolve_now fromisoformat clock (Some raw) tz = Inr r
                    \<and> tzinfo r = tz
                    \<and> to_microseconds r = local
                    \<and> hour r = local mod 86400000000 div 3600000000
                    \<and> weekday r = local div 86400000000 mod 7
                    \<and> 1 \<le> year r \<and> 1 \<le> month r \<and> month r \<le> 12
                    \<and> 1 \<le> day r \<and> day r \<le> days_in_month (year r) (month r)
                    \<and> 0 \<le> hour r \<and> hour r \<le> 23 \<and> 0 \<le> minute r \<and> minute r \<le> 59
                    \<and> 0 \<le> second r \<and> second r \<le> 59
                    \<and> 0 \<le> microsecond r \<and> microsecond r \<le> 999999
             else resolve_now fromisoformat clock (Some raw) tz = Inl OverflowError)))
   \<and> (\<exists>before after. invalid_now_error raw = before @ raw @ after)
   \<and> (year (replace_tzinfo c tz), month (replace_tzinfo c tz), day (replace_tzinfo c tz),
       hour (replace_tzinfo c tz), minute (replace_tzinfo c tz), second (replace_tzinfo c tz),
       microsecond (replace_tzinfo c tz), tzinfo (replace_tzinfo c tz))
      = (year c, month c, day c, hour c, minute c, second c, microsecond c, tz)
   \<and> (fromisoformat ''2026-02-08T10:00:00+00:00'' = Some ten_utc
        \<and> utcoffset_at tz (to_microseconds ten_utc) = 3600000000 \<longrightarrow>
      (\<exists>r. resolve_now fromisoformat clock (Some ''2026-02-08T10:00:00+00:00'') tz = Inr r
         \<and> hour r = 11 \<and> tzinfo r = tz))"
proof -
  have a: "(strip raw = body @ ''Z'' \<and> text = body @ ''+00:00'')
      \<or> (\<not> endswith (strip raw) ''Z'' \<and> text = strip raw) \<longrightarrow>
      (fromisoformat text = None \<longrightarrow>
         resolve_now fromisoformat clock (Some raw) tz = Inl (ValueError (invalid_now_error raw)))
      \<and> (\<forall>c. fromisoformat text = Some c \<and> tzinfo c = None \<longrightarrow>
         resolve_now fromisoformat clock (Some raw) tz = Inr (replace_tzinfo c tz))
      \<and> (\<forall>c offset. fromisoformat text = Some c \<and> tzinfo c = Some offset \<longrightarrow>
         resolve_now fromisoformat clock (Some raw) tz = astimezone c offset tz)
      \<and> (\<forall>c offset utc local.
            fromisoformat text = Some c \<and> tzinfo c = Some offset
            \<and> utc = to_microseconds c - offset \<and> local = utc + utcoffset_at tz utc \<longrightarrow>
            (if representable utc \<and> representable local
             then \<exists>r. resolve_now fromisoformat clock (Some raw) tz = Inr r
                    \<and> tzinfo r = tz
                    \<and> to_microseconds r = local
                    \<and> hour r = local mod 86400000000 div 3600000000
                    \<and> weekday r = local div 86400000000 mod 7
                    \<and> 1 \<le> year r \<and> 1 \<le> month r \<and> month r \<le> 12
                    \<and> 1 \<le> day r \<and> day r \<le> days_in_month (year r) (month r)
                    \<and> 0 \<le> hour r \<and> hour r \<le> 23 \<and> 0 \<le> minute r \<and> minute r \<le> 59
                    \<and> 0 \<le> second r \<and> second r \<le> 59
                    \<and> 0 \<le> microsecond r \<and> microsecond r \<le> 999999
             else resolve_now fromisoformat clock (Some raw) tz = Inl OverflowError))"
  proof
    assume h: "(strip raw = body @ ''Z'' \<and> text = body @ ''+00:00'')
      \<or> (\<not> endswith (strip raw) ''Z'' \<and> text = strip raw)"
    have t: "(if endswith (strip raw) ''Z'' then butlast (strip raw) @ ''+00:00'' else strip raw) = text"
      using h endswith_snoc [of body] by (auto simp: butlast_append)
    have p1: "fromisoformat text = None \<longrightarrow>
         resolve_now fromisoformat clock (Some raw) tz = Inl (ValueError (invalid_now_error raw))"
      by (simp add: resolve_now_unfold t)
    have p2: "\<forall>c. fromisoformat text = Some c \<and> tzinfo c = None \<longrightarrow>
         resolve_now fromisoformat clock (Some raw) tz = Inr (replace_tzinfo c tz)"
      by (simp add: resolve_now_unfold t)
    have p3: "\<forall>c offset. fromisoformat text = Some c \<and> tzinfo c = Some offset \<longrightarrow>
         resolve_now fromisoformat clock (Some raw) tz = astimezone c offset tz"
      by (simp add: resolve_now_unfold t)
    have p4: "\<forall>c offset utc local.
            fromisoformat text = Some c \<and> tzinfo c = Some offset
            \<and> utc = to_microseconds c - offset \<and> local = utc + utcoffset_at tz utc \<longrightarrow>
            (if representable utc \<and> representable local
             then \<exists>r. resolve_now fromisoformat clock (Some raw) tz = Inr r
                    \<and> tzinfo r = tz
                    \<and> to_microseconds r = local
                    \<and> hour r = local mod 86400000000 div 3600000000
                    \<and> weekday r = local div 86400000000 mod 7
                    \<and> 1 \<le> year r \<and> 1 \<le> month r \<and> month r \<le> 12
                    \<and> 1 \<le> day r \<and> day r \<le> days_in_month (year r) (month r)
                    \<and> 0 \<le> hour r \<and> hour r \<le> 23 \<and> 0 \<le> minute r \<and> minute r \<le> 59
                    \<and> 0 \<le> second r \<and> second r \<le> 59
                    \<and> 0 \<le> microsecond r \<and> microsecond r \<le> 999999
             else resolve_now fromisoformat clock (Some raw) tz = Inl OverflowError)"
    proof (intro allI impI)
      fix c :: "int option datetime" and offset utc local :: int
      assume g: "fromisoformat text = Some c \<and> tzinfo c = Some offset
            \<and> utc = to_microseconds c - offset \<and> local = utc + utcoffset_at tz utc"
      have e: "resolve_now fromisoformat clock (Some raw) tz =
          (if representable utc \<and> representable local then Inr (of_microseconds local tz)
           else Inl OverflowError)"
        using p3 g astimezone_converts [of c offset tz] by simp
      show "if representable utc \<and> representable local
             then \<exists>r. resolve_now fromisoformat clock (Some raw) tz = Inr r
                    \<and> tzinfo r = tz
                    \<and> to_microseconds r = local
                    \<and> hour r = local mod 86400000000 div 3600000000
                    \<and> weekday r = local div 86400000000 mod 7
                    \<and> 1 \<le> year r \<and> 1 \<le> month r \<and> month r \<le> 12
                    \<and> 1 \<le> day r \<and> day r \<le> days_in_month (year r) (month r)
                    \<and> 0 \<le> hour r \<and> hour r \<le> 23 \<and> 0 \<le> minute r \<and> minute r \<le> 59
                    \<and> 0 \<le> second r \<and> second r \<le> 59
                    \<and> 0 \<le> microsecond r \<and> microsecond r \<le> 999999
             else resolve_now fromisoformat clock (Some raw) tz = Inl OverflowError"
      proof (cases "representable utc \<and> representable local")
        case True
        then have "0 \<le> local" by (simp add: representable_def)
        note v = of_microseconds_valid [OF this, of tz]
        have r: "resolve_now fromisoformat clock (Some raw) tz = Inr (of_microseconds local tz)"
          unfolding e by (rule if_P [OF True])
        show ?thesis
          by (subst if_P [OF True], rule exI [of _ "of_microseconds local tz"], rule conjI [OF r])
             (use v in blast)
      next
        case False
        have r: "resolve_now fromisoformat clock (Some raw) tz = Inl OverflowError"
          unfolding e by (rule if_not_P [OF False])
        show ?thesis
          by (subst if_not_P [OF False]) (rule r)
      qed
    qed
    show "(fromisoformat text = None \<longrightarrow>
         resolve_now fromisoformat clock (Some raw) tz = Inl (ValueError (invalid_now_error raw)))
      \<and> (\<forall>c. fromisoformat text = Some c \<and> tzinfo c = None \<longrightarrow>
         resolve_now fromisoformat clock (Some raw) tz = Inr (replace_tzinfo c tz))
      \<and> (\<forall>c offset. fromisoformat text = Some c \<and> tzinfo c = Some offset \<longrightarrow>
         resolve_now fromisoformat clock (Some raw) tz = astimezone c offset tz)
      \<and> (\<forall>c offset utc local.
            fromisoformat text = Some c \<and> tzinfo c = Some offset
            \<and> utc = to_microseconds c - offset \<and> local = utc + utcoffset_at tz utc \<longrightarrow>
            (if representable utc \<and> representable local
             then \<exists>r. resolve_now fromisoformat clock (Some raw) tz = Inr r
                    \<and> tzinfo r = tz
                    \<and> to_microseconds r = local
                    \<and> hour r = local mod 86400000000 div 3600000000
                    \<and> weekday r = local div 86400000000 mod 7
                    \<and> 1 \<le> year r \<and> 1 \<le> month r \<and> month r \<le> 12
                    \<and> 1 \<le> day r \<and> day r \<le> days_in_month (year r) (month r)
                    \<and> 0 \<le> hour r \<and> hour r \<le> 23 \<and> 0 \<le> minute r \<and> minute r \<le> 59
                    \<and> 0 \<le> second r \<and> second r \<le> 59
                    \<and> 0 \<le> microsecond r \<and> microsecond r \<le> 999999
             else resolve_now fromisoformat clock (Some raw) tz = Inl OverflowError))"
      by (rule conjI [OF p1 conjI [OF p2 conjI [OF p3 p4]]])
  qed
  have m: "\<exists>before after. invalid_now_error raw = before @ raw @ after"
    by (rule exI [of _ "''Invalid --now value '' @ [CHR 0x27]"],
        rule exI [of _ "CHR 0x27 # ''. Use ISO-8601, e.g. 2026-02-08T15:30:00+01:00.''"],
        simp add: invalid_now_error_def)
  have f: "(year (replace_tzinfo c tz), month (replace_tzinfo c tz), day (replace_tzinfo c tz),
       hour (replace_tzinfo c tz), minute (replace_tzinfo c tz), second (replace_tzinfo c tz),
       microsecond (replace_tzinfo c tz), tzinfo (replace_tzinfo c tz))
      = (year c, month c, day c, hour c, minute c, second c, microsecond c, tz)"
    by (simp add: replace_tzinfo_def)
  have e: "fromisoformat ''2026-02-08T10:00:00+00:00'' = Some ten_utc
        \<and> utcoffset_at tz (to_microseconds ten_utc) = 3600000000 \<longrightarrow>
      (\<exists>r. resolve_now fromisoformat clock (Some ''2026-02-08T10:00:00+00:00'') tz = Inr r
         \<and> hour r = 11 \<and> tzinfo r = tz)"
  proof
    assume h: "fromisoformat ''2026-02-08T10:00:00+00:00'' = Some ten_utc
        \<and> utcoffset_at tz (to_microseconds ten_utc) = 3600000000"
    have s: "(if endswith (strip ''2026-02-08T10:00:00+00:00'') ''Z''
              then butlast (strip ''2026-02-08T10:00:00+00:00'') @ ''+00:00''
              else strip ''2026-02-08T10:00:00+00:00'') = ''2026-02-08T10:00:00+00:00''"
      by code_simp
    have i: "to_microseconds ten_utc = 63906141600000000"
      using ten_utc_instant [of "()"] by (simp add: to_microseconds_def replace_tzinfo_def)
    have "resolve_now fromisoformat clock (Some ''2026-02-08T10:00:00+00:00'') tz
        = astimezone ten_utc 0 tz"
      unfolding resolve_now_unfold s using h by (simp add: ten_utc_def)
    then show "\<exists>r. resolve_now fromisoformat clock (Some ''2026-02-08T10:00:00+00:00'') tz = Inr r
         \<and> hour r = 11 \<and> tzinfo r = tz"
      using astimezone_ten_utc [of tz] h i by simp
  qed
  show ?thesis
    by (rule conjI [OF a conjI [OF m conjI [OF f e]]])
qed

text \<open>
  Claim C8, amended, at six overrides, parsed by \<open>fromisoformat_fixed\<close>. Resolved into the
  zone one hour east of UTC: \<open>2026-02-08T10:00:00Z\<close> between a no-break space and a blank
  is converted from the offset zero; \<open>2026-02-08T10:00:00+00:00\<close> gives the local hour 11;
  \<open>tomorrow\<close> is refused; \<open>2026-02-08T10:00:00\<close>, which has no offset, is tagged;
  \<open>2026-02-08T23:30:00-05:30\<close> gives the hour 6 of the next day, a Monday. Resolved into
  UTC, \<open>0001-01-01T00:30:00+01:00\<close> ends with the \<open>OverflowError\<close>.
\<close>

theorem resolve_now_override_witness:
  "resolve_now fromisoformat_fixed 0 (Some (CHR 0xA0 # ''2026-02-08T10:00:00Z '')) gmt_minus_1
     = astimezone ten_utc 0 gmt_minus_1
   \<and> (\<exists>r. resolve_now fromisoformat_fixed 0 (Some ''2026-02-08T10:00:00+00:00'') gmt_minus_1 = Inr r
        \<and> hour r = 11 \<and> tzinfo r = gmt_minus_1)
   \<and> resolve_now fromisoformat_fixed 0 (Some ''tomorrow'') gmt_minus_1
     = Inl (ValueError (invalid_now_error ''tomorrow''))
   \<and> resolve_now fromisoformat_fixed 0 (Some ''2026-02-08T10:00:00'') gmt_minus_1
     = Inr (replace_tzinfo ten_naive gmt_minus_1)
   \<and> (\<exists>r. resolve_now fromisoformat_fixed 0 (Some ''2026-02-08T23:30:00-05:30'') gmt_minus_1 = Inr r
        \<and> tzinfo r = gmt_minus_1 \<and> hour r = 6 \<and> weekday r = 0)
   \<and> resolve_now fromisoformat_fixed 0 (Some ''0001-01-01T00:30:00+01:00'') (fixed_zone ''UTC'' 0)
     = Inl OverflowError"
proof -
  note z = resolve_now_override [of "CHR 0xA0 # ''2026-02-08T10:00:00Z ''" "''2026-02-08T10:00:00''"
      "''2026-02-08T10:00:00+00:00''" fromisoformat_fixed 0 gmt_minus_1]
  have hz: "strip (CHR 0xA0 # ''2026-02-08T10:00:00Z '') = ''2026-02-08T10:00:00'' @ ''Z''
      \<and> ''2026-02-08T10:00:00+00:00'' = ''2026-02-08T10:00:00'' @ ''+00:00''"
    by code_simp
  have pz: "fromisoformat_fixed ''2026-02-08T10:00:00+00:00'' = Some ten_utc \<and> tzinfo ten_utc = Some 0"
    by code_simp
  have r1: "resolve_now fromisoformat_fixed 0 (Some (CHR 0xA0 # ''2026-02-08T10:00:00Z '')) gmt_minus_1
     = astimezone ten_utc 0 gmt_minus_1"
    using mp [OF conjunct1 [OF z] disjI1 [OF hz]] pz by blast
  have oz: "utcoffset_at gmt_minus_1 (to_microseconds ten_utc) = 3600000000"
    by (simp add: gmt_minus_1_def fixed_zone_def)
  have r2: "\<exists>r. resolve_now fromisoformat_fixed 0 (Some ''2026-02-08T10:00:00+00:00'') gmt_minus_1 = Inr r
        \<and> hour r = 11 \<and> tzinfo r = gmt_minus_1"
    by (rule mp [OF conjunct2 [OF conjunct2 [OF conjunct2 [OF z]]] conjI [OF conjunct1 [OF pz] oz]])
  note w = resolve_now_override [of "''tomorrow''" "[]" "''tomorrow''" fromisoformat_fixed 0 gmt_minus_1]
  have hw: "\<not> endswith (strip ''tomorrow'') ''Z'' \<and> ''tomorrow'' = strip ''tomorrow''"
    by code_simp
  have pw: "fromisoformat_fixed ''tomorrow'' = None"
    by code_simp
  have r3: "resolve_now fromisoformat_fixed 0 (Some ''tomorrow'') gmt_minus_1
     = Inl (ValueError (invalid_now_error ''tomorrow''))"
    using mp [OF conjunct1 [OF w] disjI2 [OF hw]] pw by blast
  note n = resolve_now_override [of "''2026-02-08T10:00:00''" "[]" "''2026-02-08T10:00:00''"
      fromisoformat_fixed 0 gmt_minus_1]
  have hn: "\<not> endswith (strip ''2026-02-08T10:00:00'') ''Z''
      \<and> ''2026-02-08T10:00:00'' = strip ''2026-02-08T10:00:00''"
    by code_simp
  have pn: "fromisoformat_fixed ''2026-02-08T10:00:00'' = Some ten_naive \<and> tzinfo ten_naive = None"
    by code_simp
  have r4: "resolve_now fromisoformat_fixed 0 (Some ''2026-02-08T10:00:00'') gmt_minus_1
     = Inr (replace_tzinfo ten_naive gmt_minus_1)"
    using mp [OF conjunct1 [OF n] disjI2 [OF hn]] pn by blast
  note l = resolve_now_override [of "''2026-02-08T23:30:00-05:30''" "[]" "''2026-02-08T23:30:00-05:30''"
      fromisoformat_fixed 0 gmt_minus_1]
  have hl: "\<not> endswith (strip ''2026-02-08T23:30:00-05:30'') ''Z''
      \<and> ''2026-02-08T23:30:00-05:30'' = strip ''2026-02-08T23:30:00-05:30''"
    by code_simp
  have pl: "fromisoformat_fixed ''2026-02-08T23:30:00-05:30'' = Some late_west"
    by code_simp
  have tl: "tzinfo late_west = Some (- 19800000000)" by (simp add: late_west_def)
  have ul: "63906210000000000 = to_microseconds late_west - (- 19800000000)" by code_simp
  have ll: "63906213600000000 = 63906210000000000 + utcoffset_at gmt_minus_1 63906210000000000"
    by (simp add: gmt_minus_1_def fixed_zone_def)
  have rl: "representable 63906210000000000 \<and> representable 63906213600000000" by code_simp
  note cl = spec [OF spec [OF spec [OF spec [OF
      conjunct2 [OF conjunct2 [OF conjunct2 [OF mp [OF conjunct1 [OF l] disjI2 [OF hl]]]]]]]],
      of late_west "- 19800000000" 63906210000000000 63906213600000000]
  have "\<exists>r. resolve_now fromisoformat_fixed 0 (Some ''2026-02-08T23:30:00-05:30'') gmt_minus_1 = Inr r
        \<and> tzinfo r = gmt_minus_1
        \<and> hour r = 63906213600000000 mod 86400000000 div 3600000000
        \<and> weekday r = 63906213600000000 div 86400000000 mod 7"
    using mp [OF cl conjI [OF pl conjI [OF tl conjI [OF ul ll]]]] unfolding if_P [OF rl] by blast
  then have r5: "\<exists>r. resolve_now fromisoformat_fixed 0 (Some ''2026-02-08T23:30:00-05:30'') gmt_minus_1 = Inr r
        \<and> tzinfo r = gmt_minus_1 \<and> hour r = 6 \<and> weekday r = 0"
    by simp
  note o = resolve_now_override [of "''0001-01-01T00:30:00+01:00''" "[]" "''0001-01-01T00:30:00+01:00''"
      fromisoformat_fixed 0 "fixed_zone ''UTC'' 0"]
  have ho: "\<not> endswith (strip ''0001-01-01T00:30:00+01:00'') ''Z''
      \<and> ''0001-01-01T00:30:00+01:00'' = strip ''0001-01-01T00:30:00+01:00''"
    by code_simp
  have po: "fromisoformat_fixed ''0001-01-01T00:30:00+01:00'' = Some first_half_hour"
    by code_simp
  have to: "tzinfo first_half_hour = Some 3600000000" by (simp add: first_half_hour_def)
  have uo: "- 1800000000 = to_microseconds first_half_hour - 3600000000" by code_simp
  have lo: "- 1800000000 = - 1800000000 + utcoffset_at (fixed_zone ''UTC'' 0) (- 1800000000)"
    by (simp add: fixed_zone_def)
  have ro: "\<not> (representable (- 1800000000) \<and> representable (- 1800000000))" by code_simp
  note co = spec [OF spec [OF spec [OF spec [OF
      conjunct2 [OF conjunct2 [OF conjunct2 [OF mp [OF conjunct1 [OF o] disjI2 [OF ho]]]]]]]],
      of first_half_hour 3600000000 "- 1800000000" "- 1800000000"]
  have r6: "resolve_now fromisoformat_fixed 0 (Some ''0001-01-01T00:30:00+01:00'') (fixed_zone ''UTC'' 0)
     = Inl OverflowError"
    using mp [OF co conjI [OF po conjI [OF to conjI [OF uo lo]]]] unfolding if_not_P [OF ro] .
  show ?thesis
    by (rule conjI [OF r1 conjI [OF r2 conjI [OF r3 conjI [OF r4 conjI [OF r5 r6]]]]])
qed

section \<open>The reconciliation driver\<close>

lemma fold_by_name_None:
  "(fold (\<lambda>a m. m(name a \<mapsto> a)) listing m0 n = None) = (m0 n = None \<and> n \<notin> name ` set listing)"
  by (induction listing arbitrary: m0) auto

lemma by_name_None: "(by_name listing n = None) = (n \<notin> name ` set listing)"
  by (simp add: by_name_def fold_by_name_None)

lemma select_loop_result:
  "select_loop m ns targets missing =
     (targets @ map (\<lambda>n. the (m n)) (filter (\<lambda>n. m n \<noteq> None) ns),
      missing @ filter (\<lambda>n. m n = None) ns)"
  by (induction ns arbitrary: targets missing) (auto split: option.splits)

lemma select_target_apps_listing:
  "select_target_apps (Inr listing) ns =
     Inr (map (\<lambda>n. the (by_name listing n)) (filter (\<lambda>n. n \<in> name ` set listing) ns),
          filter (\<lambda>n. n \<notin> name ` set listing) ns)"
  by (simp add: select_target_apps_def select_loop_result by_name_None)

lemma terminal_states_start: "terminal_states ''start'' = {''ACTIVE'', ''STARTING''}"
  by (simp add: terminal_states_def RUNNING_STATES_def)

lemma terminal_states_stop: "terminal_states ''stop'' = {''STOPPED'', ''STOPPING''}"
  by (simp add: terminal_states_def STOPPED_STATES_def)

lemma unknown_not_terminal: "''UNKNOWN'' \<notin> terminal_states action"
  by (simp add: terminal_states_def RUNNING_STATES_def STOPPED_STATES_def)

lemma step_terminal:
  "state_name a \<in> terminal_states action \<Longrightarrow>
     reconcile_step w dry action a (f, u, issued, r) = (f, u, issued, r)"
  by (simp add: reconcile_step_def)

lemma step_dry:
  "state_name a \<notin> terminal_states action \<Longrightarrow>
     reconcile_step w True action a (f, u, issued, r) = (f, Suc u, issued, r)"
  by (simp add: reconcile_step_def)

lemma step_call:
  "state_name a \<notin> terminal_states action \<Longrightarrow> action_fn w action (name a) r = (e, r') \<Longrightarrow>
     reconcile_step w False action a (f, u, issued, r) =
       (if e = None then f else Suc f, if e = None then Suc u else u,
        issued @ [(action, name a, e)], r')"
  by (cases e) (simp_all add: reconcile_step_def)

lemma step_shape:
  "\<exists>new r'. reconcile_step w dry action a (f, u, issued, r)
       = (f + length (filter failed_call new),
          u + (if needs_change action a then 1 else 0) - length (filter failed_call new),
          issued @ new, r')
     \<and> length (filter failed_call new) \<le> (if needs_change action a then 1 else 0)
     \<and> map (\<lambda>c. (fst c, fst (snd c))) new
         = (if needs_change action a \<and> \<not> dry then [(action, name a)] else [])"
proof (cases "state_name a \<in> terminal_states action")
  case True
  then show ?thesis
    by (intro exI [of _ "[]"] exI [of _ r]) (simp add: step_terminal needs_change_def)
next
  case False
  show ?thesis
  proof (cases dry)
    case True
    then show ?thesis using False
      by (intro exI [of _ "[]"] exI [of _ r]) (simp add: step_dry needs_change_def)
  next
    case nd: False
    obtain e r' where c: "action_fn w action (name a) r = (e, r')"
      by (cases "action_fn w action (name a) r") auto
    show ?thesis using False nd step_call [OF False c, of f u issued]
      by (intro exI [of _ "[(action, name a, e)]"] exI [of _ r'])
         (simp add: needs_change_def failed_call_def)
  qed
qed

lemma reconcile_shape:
  "\<exists>new r'. reconcile w dry action ts (f, u, issued, r)
       = (f + length (filter failed_call new),
          u + length (filter (needs_change action) ts) - length (filter failed_call new),
          issued @ new, r')
     \<and> length (filter failed_call new) \<le> length (filter (needs_change action) ts)
     \<and> map (\<lambda>c. (fst c, fst (snd c))) new
         = (if dry then [] else map (\<lambda>a. (action, name a)) (filter (needs_change action) ts))"
proof (induction ts arbitrary: f u issued r)
  case Nil
  then show ?case by simp
next
  case (Cons a ts)
  obtain n1 r1 where s: "reconcile_step w dry action a (f, u, issued, r)
       = (f + length (filter failed_call n1),
          u + (if needs_change action a then 1 else 0) - length (filter failed_call n1),
          issued @ n1, r1)"
    and b1: "length (filter failed_call n1) \<le> (if needs_change action a then 1 else 0)"
    and m1: "map (\<lambda>c. (fst c, fst (snd c))) n1
         = (if needs_change action a \<and> \<not> dry then [(action, name a)] else [])"
    using step_shape [of w dry action a f u issued r] by blast
  obtain n2 r2 where t: "reconcile w dry action ts
        (f + length (filter failed_call n1),
          u + (if needs_change action a then 1 else 0) - length (filter failed_call n1),
          issued @ n1, r1)
       = (f + length (filter failed_call n1) + length (filter failed_call n2),
          u + (if needs_change action a then 1 else 0) - length (filter failed_call n1)
            + length (filter (needs_change action) ts) - length (filter failed_call n2),
          (issued @ n1) @ n2, r2)"
    and b2: "length (filter failed_call n2) \<le> length (filter (needs_change action) ts)"
    and m2: "map (\<lambda>c. (fst c, fst (snd c))) n2
         = (if dry then [] else map (\<lambda>a. (action, name a)) (filter (needs_change action) ts))"
    using Cons.IH by blast
  show ?case
    using s t b1 b2 m1 m2
    by (intro exI [of _ "n1 @ n2"] exI [of _ r2]) (auto split: if_splits)
qed

section \<open>Runs of main\<close>

lemma returned_emit:
  "returned issued r
       (emit_and_return action days ns changed evaluated args code failed missing now_local)
     = \<lparr>result = Returned code,
        report = Some (summary_payload action args now_local ns changed evaluated code failed missing days),
        stdout = emit_result (opt_output args)
          (summary_payload action args now_local ns changed evaluated code failed missing days),
        calls = issued, remote = r\<rparr>"
  by (simp add: returned_def emit_and_return_def Let_def)

lemma summary_payload_counts:
  "key_exit_code (summary_payload action args now_local ns changed evaluated code failed missing days) = code
   \<and> key_apps_changed (summary_payload action args now_local ns changed evaluated code failed missing days) = changed
   \<and> key_apps_evaluated (summary_payload action args now_local ns changed evaluated code failed missing days) = evaluated
   \<and> key_failures (summary_payload action args now_local ns changed evaluated code failed missing days) = failed
   \<and> key_missing_apps (summary_payload action args now_local ns changed evaluated code failed missing days) = missing"
  by (simp add: summary_payload_def)

lemma main_after_arguments:
  "main_arguments w args = Inr (now_local, ns, days, action) \<Longrightarrow>
     main w r args = main_reconcile w r args now_local ns days action"
  by (simp add: main_def)

lemma main_reconcile_setup_failure:
  assumes "(\<exists>e. sdk_import w = Some e \<and> (e = ImportError \<or> e = ModuleNotFoundError))
     \<or> (sdk_import w = None \<and> sdk_client w (client_profile args) \<noteq> None)
     \<or> (sdk_import w = None \<and> sdk_client w (client_profile args) = None
         \<and> (\<exists>e. sdk_apps_list w = Inl e))"
  shows "main_reconcile w r args now_local ns days action
     = returned [] r (emit_and_return action days ns 0 0 args 2 1 [] now_local)"
  using assms
  by (auto simp: main_reconcile_def select_target_apps_def split: option.splits)

lemma main_reconcile_selected:
  assumes "sdk_import w = None" and "sdk_client w (client_profile args) = None"
    and "select_target_apps (sdk_apps_list w) ns = Inr (targets, missing)"
  shows "main_reconcile w r args now_local ns days action
     = (if missing \<noteq> [] \<and> \<not> opt_ignore_missing_apps args
        then returned [] r
          (emit_and_return action days ns 0 (length targets) args 1 0 missing now_local)
        else if targets = []
        then returned [] r
          (emit_and_return action days ns 0 0 args
             (if opt_ignore_missing_apps args then 0 else 1) 0 missing now_local)
        else
          (case reconcile w (opt_dry_run args) action targets (0, 0, [], r) of
             (failed, updated, issued, r') \<Rightarrow>
               returned issued r'
                 (emit_and_return action days ns updated (length targets) args
                    (if failed \<noteq> 0 then 1 else 0) failed missing now_local)))"
  using assms by (simp add: main_reconcile_def)

lemma main_reconcile_ends:
  "(\<exists>x. main_reconcile w r args now_local ns days action = ended x r)
   \<or> (\<exists>issued r' changed evaluated code failed missing.
         main_reconcile w r args now_local ns days action
         = returned issued r'
             (emit_and_return action days ns changed evaluated args code failed missing now_local))"
proof (cases "sdk_import w")
  case (Some e)
  show ?thesis
  proof (cases "e = ImportError \<or> e = ModuleNotFoundError")
    case True
    have "main_reconcile w r args now_local ns days action
        = returned [] r (emit_and_return action days ns 0 0 args 2 1 [] now_local)"
      using Some True by (intro main_reconcile_setup_failure) blast
    then show ?thesis by (intro disjI2 exI)
  next
    case False
    then have "main_reconcile w r args now_local ns days action = ended (Raised e) r"
      using Some by (simp add: main_reconcile_def)
    then show ?thesis by (intro disjI1 exI)
  qed
next
  case None
  show ?thesis
  proof (cases "sdk_client w (client_profile args)")
    case (Some e)
    have "main_reconcile w r args now_local ns days action
        = returned [] r (emit_and_return action days ns 0 0 args 2 1 [] now_local)"
      using None Some by (intro main_reconcile_setup_failure) simp
    then show ?thesis by (intro disjI2 exI)
  next
    case c: None
    show ?thesis
    proof (cases "select_target_apps (sdk_apps_list w) ns")
      case (Inl e)
      then have "\<exists>e. sdk_apps_list w = Inl e"
        by (cases "sdk_apps_list w") (simp_all add: select_target_apps_def)
      then have "main_reconcile w r args now_local ns days action
          = returned [] r (emit_and_return action days ns 0 0 args 2 1 [] now_local)"
        using None c by (intro main_reconcile_setup_failure) simp
      then show ?thesis by (intro disjI2 exI)
    next
      case (Inr sel)
      obtain targets missing where sel: "sel = (targets, missing)" by (cases sel)
      obtain failed updated issued r' where
        l: "reconcile w (opt_dry_run args) action targets (0, 0, [], r) = (failed, updated, issued, r')"
        by (cases "reconcile w (opt_dry_run args) action targets (0, 0, [], r)") auto
      note m = main_reconcile_selected [OF None c Inr [unfolded sel], of r now_local days action,
          unfolded l prod.case]
      show ?thesis
      proof (cases "missing \<noteq> [] \<and> \<not> opt_ignore_missing_apps args")
        case True
        then have "main_reconcile w r args now_local ns days action = returned [] r
          (emit_and_return action days ns 0 (length targets) args 1 0 missing now_local)"
          using m by simp
        then show ?thesis by (intro disjI2 exI)
      next
        case nm: False
        show ?thesis
        proof (cases "targets = []")
          case True
          then have "main_reconcile w r args now_local ns days action = returned [] r
            (emit_and_return action days ns 0 0 args
               (if opt_ignore_missing_apps args then 0 else 1) 0 missing now_local)"
            using m nm by simp
          then show ?thesis by (intro disjI2 exI)
        next
          case False
          then have "main_reconcile w r args now_local ns days action = returned issued r'
                 (emit_and_return action days ns updated (length targets) args
                    (if failed \<noteq> 0 then 1 else 0) failed missing now_local)"
            using m nm by simp
          then show ?thesis by (intro disjI2 exI)
        qed
      qed
    qed
  qed
qed

lemma returned_consistent:
  assumes "out = returned issued r'
      (emit_and_return action days ns changed evaluated args code failed missing now_local)"
  shows "(\<forall>p. report out = Some p \<longrightarrow>
            result out = Returned (key_exit_code p) \<and> stdout out = emit_result (opt_output args) p)
     \<and> (report out = None \<longrightarrow> stdout out = [])
     \<and> (\<forall>p\<in>set (stdout out). result out = Returned (key_exit_code p))"
  unfolding assms returned_emit
  by (simp add: summary_payload_counts emit_result_def)

lemma ended_consistent:
  assumes "out = ended x r"
  shows "(\<forall>p. report out = Some p \<longrightarrow>
            result out = Returned (key_exit_code p) \<and> stdout out = emit_result fmt p)
     \<and> (report out = None \<longrightarrow> stdout out = [])
     \<and> (\<forall>p\<in>set (stdout out). result out = Returned (key_exit_code p))"
  unfolding assms by (simp add: ended_def)

lemma arguments_obtain:
  "(case main_arguments w a of
      Inl _ \<Rightarrow> False
    | Inr (now_local, ns', days', action') \<Rightarrow> ns' = ns \<and> days' = days \<and> action' = action)
   \<Longrightarrow> \<exists>now_local. main_arguments w a = Inr (now_local, ns, days, action)"
  by (auto split: sum.splits)

text \<open>
  Claim C3, as stated, fails for a target whose transition call raises. \<open>app-b\<close> is
  stopped, so it is not in a terminal state of \<open>start\<close>, and the run is not dry: the call
  is issued and raises, and the application is counted as failed (first count) and not as
  changed (second count).
\<close>

theorem failed_call_not_changed_counterexample:
  "state_name (app_in ''app-b'' ''STOPPED'') \<notin> terminal_states ''start''
   \<and> reconcile_step (test_world []) False ''start'' (app_in ''app-b'' ''STOPPED'') (0, 0, [], [])
     = (1, 0, [(''start'', ''app-b'', Some (OtherException ''start failed''))], [])"
  by code_simp

text \<open>
  Claim C3, amended. The terminal states are \<open>ACTIVE\<close> and \<open>STARTING\<close> for \<open>start\<close>,
  \<open>STOPPED\<close> and \<open>STOPPING\<close> for \<open>stop\<close>, and the state of an application is compared
  in upper case. For every target and every counts of failures and changes, calls issued
  and remote state: a target in a terminal state of the action leaves all of them as they
  are; any other target is, in a dry run, counted as changed without a call; otherwise the
  transition call for its name is issued, and the target is counted as changed when the
  call returns and as failed when it raises. \<open>UNKNOWN\<close>, the state of an application
  that reports none, is terminal for no action.
\<close>

theorem reconcile_step_cases:
  "terminal_states ''start'' = {''ACTIVE'', ''STARTING''}
   \<and> terminal_states ''stop'' = {''STOPPED'', ''STOPPING''}
   \<and> state_name \<lparr>name = n, compute_status = Some \<lparr>state = Some (EnumState s)\<rparr>\<rparr> = upper s
   \<and> (state_name a \<in> terminal_states action \<longrightarrow>
        reconcile_step w dry action a (f, u, issued, r) = (f, u, issued, r))
   \<and> (state_name a \<notin> terminal_states action \<and> dry \<longrightarrow>
        reconcile_step w dry action a (f, u, issued, r) = (f, u + 1, issued, r))
   \<and> (state_name a \<notin> terminal_states action \<and> \<not> dry \<longrightarrow>
        (\<exists>e r'. action_fn w action (name a) r = (e, r')
           \<and> reconcile_step w dry action a (f, u, issued, r)
               = (if e = None then f else f + 1, if e = None then u + 1 else u,
                  issued @ [(action, name a, e)], r')))
   \<and> ''UNKNOWN'' \<notin> terminal_states action
   \<and> state_name \<lparr>name = n, compute_status = None\<rparr> = ''UNKNOWN''
   \<and> state_name \<lparr>name = n, compute_status = Some \<lparr>state = None\<rparr>\<rparr> = ''UNKNOWN''"
proof -
  have c: "state_name a \<notin> terminal_states action \<and> \<not> dry \<longrightarrow>
        (\<exists>e r'. action_fn w action (name a) r = (e, r')
           \<and> reconcile_step w dry action a (f, u, issued, r)
               = (if e = None then f else f + 1, if e = None then u + 1 else u,
                  issued @ [(action, name a, e)], r'))"
  proof
    assume h: "state_name a \<notin> terminal_states action \<and> \<not> dry"
    obtain e r' where x: "action_fn w action (name a) r = (e, r')"
      by (cases "action_fn w action (name a) r") auto
    show "\<exists>e r'. action_fn w action (name a) r = (e, r')
           \<and> reconcile_step w dry action a (f, u, issued, r)
               = (if e = None then f else f + 1, if e = None then u + 1 else u,
                  issued @ [(action, name a, e)], r')"
      using h x step_call [of a action w r e r' f u issued] by auto
  qed
  have t: "state_name a \<in> terminal_states action \<longrightarrow>
        reconcile_step w dry action a (f, u, issued, r) = (f, u, issued, r)"
    by (simp add: step_terminal)
  have d: "state_name a \<notin> terminal_states action \<and> dry \<longrightarrow>
        reconcile_step w dry action a (f, u, issued, r) = (f, u + 1, issued, r)"
    by (auto simp: step_dry)
  have s: "state_name \<lparr>name = n, compute_status = Some \<lparr>state = Some (EnumState s)\<rparr>\<rparr> = upper s"
    by (simp add: state_name_def)
  have n1: "state_name \<lparr>name = n, compute_status = None\<rparr> = ''UNKNOWN''"
    by (simp add: state_name_def)
  have n2: "state_name \<lparr>name = n, compute_status = Some \<lparr>state = None\<rparr>\<rparr> = ''UNKNOWN''"
    by (simp add: state_name_def)
  show ?thesis
    by (rule conjI [OF terminal_states_start conjI [OF terminal_states_stop conjI [OF s
          conjI [OF t conjI [OF d conjI [OF c conjI [OF unknown_not_terminal conjI [OF n1 n2]]]]]]]])
qed

text \<open>
  Claim C3, amended, on four targets of \<open>start\<close>: \<open>Active\<close> is terminal in any case of
  letters and is skipped; a stopped application is counted as changed without a call in a
  dry run and with a call otherwise; an application without a state is not skipped.
\<close>

theorem reconcile_step_cases_witness:
  "reconcile_step (test_world []) False ''start'' (app_in ''app-c'' ''Active'') (0, 0, [], [])
     = (0, 0, [], [])
   \<and> reconcile_step (test_world []) True ''start'' (app_in ''app-a'' ''STOPPED'') (0, 0, [], [])
     = (0, 1, [], [])
   \<and> reconcile_step (test_world []) False ''start'' (app_in ''app-a'' ''STOPPED'') (0, 0, [], [])
     = (0, 1, [(''start'', ''app-a'', None)], [''app-a''])
   \<and> reconcile_step (test_world []) True ''stop'' \<lparr>name = ''app-e'', compute_status = None\<rparr> (0, 0, [], [])
     = (0, 1, [], [])"
proof -
  let ?w = "test_world [] :: string list world"
  note t = reconcile_step_cases [where w = ?w and f = 0 and u = 0 and issued = "[]" and r = "[]"]
  have h1: "state_name (app_in ''app-c'' ''Active'') \<in> terminal_states ''start''" by code_simp
  have r1: "reconcile_step ?w False ''start'' (app_in ''app-c'' ''Active'') (0, 0, [], []) = (0, 0, [], [])"
    by (rule mp [OF conjunct1 [OF conjunct2 [OF conjunct2 [OF conjunct2 [OF t]]]] h1])
  have h2: "state_name (app_in ''app-a'' ''STOPPED'') \<notin> terminal_states ''start'' \<and> True" by code_simp
  have r2: "reconcile_step ?w True ''start'' (app_in ''app-a'' ''STOPPED'') (0, 0, [], []) = (0, 1, [], [])"
    using mp [OF conjunct1 [OF conjunct2 [OF conjunct2 [OF conjunct2 [OF conjunct2 [OF t]]]]] h2]
    by simp
  have h3: "state_name (app_in ''app-a'' ''STOPPED'') \<notin> terminal_states ''start'' \<and> \<not> False" by code_simp
  have x3: "action_fn ?w ''start'' (name (app_in ''app-a'' ''STOPPED'')) [] = (None, [''app-a''])"
    by code_simp
  have r3: "reconcile_step ?w False ''start'' (app_in ''app-a'' ''STOPPED'') (0, 0, [], [])
      = (0, 1, [(''start'', ''app-a'', None)], [''app-a''])"
    using mp [OF conjunct1 [OF conjunct2 [OF conjunct2 [OF conjunct2 [OF conjunct2 [OF conjunct2 [OF t]]]]]] h3]
    unfolding x3 by (auto simp: app_in_def)
  have h4: "state_name \<lparr>name = ''app-e'', compute_status = None\<rparr> \<notin> terminal_states ''stop'' \<and> True"
    by code_simp
  have r4: "reconcile_step ?w True ''stop'' \<lparr>name = ''app-e'', compute_status = None\<rparr> (0, 0, [], [])
      = (0, 1, [], [])"
    using mp [OF conjunct1 [OF conjunct2 [OF conjunct2 [OF conjunct2 [OF conjunct2 [OF t]]]]] h4]
    by simp
  show ?thesis by (rule conjI [OF r1 conjI [OF r2 conjI [OF r3 r4]]])
qed

text \<open>
  Claim C2, as stated, fails when some of the requested names are found. With \<open>app-a\<close>
  listed and \<open>ghost\<close> not, and missing applications not ignored, the run returns 1,
  issues no call and reports \<open>ghost\<close> missing and nothing changed; but it reports one
  application evaluated, not zero.
\<close>

theorem missing_names_evaluated_counterexample:
  "result (main (test_world [app_in ''app-a'' ''STOPPED'']) []
       (test_args\<lparr>opt_app_names := ''app-a,ghost''\<rparr>)) = Returned 1
   \<and> calls (main (test_world [app_in ''app-a'' ''STOPPED'']) []
       (test_args\<lparr>opt_app_names := ''app-a,ghost''\<rparr>)) = []
   \<and> map key_missing_apps (stdout (main (test_world [app_in ''app-a'' ''STOPPED'']) []
       (test_args\<lparr>opt_app_names := ''app-a,ghost''\<rparr>))) = [[''ghost'']]
   \<and> map key_apps_changed (stdout (main (test_world [app_in ''app-a'' ''STOPPED'']) []
       (test_args\<lparr>opt_app_names := ''app-a,ghost''\<rparr>))) = [0]
   \<and> map key_apps_evaluated (stdout (main (test_world [app_in ''app-a'' ''STOPPED'']) []
       (test_args\<lparr>opt_app_names := ''app-a,ghost''\<rparr>))) = [1]
   \<and> map key_apps_evaluated (stdout (main (test_world [app_in ''app-a'' ''STOPPED'']) []
       (test_args\<lparr>opt_app_names := ''app-a,ghost''\<rparr>))) \<noteq> [0]"
  by code_simp

text \<open>
  Claim C2, amended. Take a run of \<open>main\<close> whose arguments are accepted, in which the
  SDK is imported, the client is constructed and the applications are listed. When a
  requested name is absent from the listing and missing applications are not ignored, the
  run returns 1, issues no call and leaves the remote state as it was; its summary has the
  exit code 1, no application changed, no failure, the absent names in the order of the
  request as the missing ones, and as the count of applications evaluated the number of
  requested names that are listed.
\<close>

theorem missing_names_abort:
  assumes "main_arguments w args = Inr (now_local, ns, days, action)"
    and "sdk_import w = None"
    and "sdk_client w (client_profile args) = None"
    and "sdk_apps_list w = Inr listing"
    and "\<exists>n\<in>set ns. n \<notin> name ` set listing"
    and "\<not> opt_ignore_missing_apps args"
  shows "result (main w r args) = Returned 1
     \<and> calls (main w r args) = []
     \<and> remote (main w r args) = r
     \<and> (\<exists>p. report (main w r args) = Some p
          \<and> stdout (main w r args) = emit_result (opt_output args) p
          \<and> key_exit_code p = 1
          \<and> key_apps_changed p = 0
          \<and> key_failures p = 0
          \<and> key_missing_apps p = filter (\<lambda>n. n \<notin> name ` set listing) ns
          \<and> key_apps_evaluated p = length (filter (\<lambda>n. n \<in> name ` set listing) ns))"
proof -
  let ?targets = "map (\<lambda>n. the (by_name listing n)) (filter (\<lambda>n. n \<in> name ` set listing) ns)"
  let ?missing = "filter (\<lambda>n. n \<notin> name ` set listing) ns"
  have s: "select_target_apps (sdk_apps_list w) ns = Inr (?targets, ?missing)"
    using assms(4) by (simp add: select_target_apps_listing)
  have ne: "?missing \<noteq> []"
    using assms(5) by (simp add: filter_empty_conv)
  have "main w r args = returned [] r
      (emit_and_return action days ns 0 (length ?targets) args 1 0 ?missing now_local)"
    unfolding main_after_arguments [OF assms(1)]
      main_reconcile_selected [OF assms(2) assms(3) s]
    using ne assms(6) by simp
  then show ?thesis
    by (simp add: returned_emit summary_payload_counts)
qed

text \<open>
  Claim C2, amended, on the run of the counterexample: \<open>ghost\<close> is missing, \<open>app-a\<close> is
  the one application evaluated.
\<close>

theorem missing_names_abort_witness:
  "result (main (test_world [app_in ''app-a'' ''STOPPED'']) []
       (test_args\<lparr>opt_app_names := ''app-a,ghost''\<rparr>)) = Returned 1
   \<and> calls (main (test_world [app_in ''app-a'' ''STOPPED'']) []
       (test_args\<lparr>opt_app_names := ''app-a,ghost''\<rparr>)) = []
   \<and> (\<exists>p. report (main (test_world [app_in ''app-a'' ''STOPPED'']) []
       (test_args\<lparr>opt_app_names := ''app-a,ghost''\<rparr>)) = Some p
        \<and> key_apps_changed p = 0 \<and> key_missing_apps p = [''ghost''] \<and> key_apps_evaluated p = 1)"
proof -
  let ?w = "test_world [app_in ''app-a'' ''STOPPED'']"
  let ?a = "test_args\<lparr>opt_app_names := ''app-a,ghost''\<rparr>"
  have "case main_arguments ?w ?a of
      Inl _ \<Rightarrow> False
    | Inr (now_local, ns', days', action') \<Rightarrow>
        ns' = [''app-a'', ''ghost''] \<and> days' = None \<and> action' = ''start''"
    by code_simp
  then obtain t where a: "main_arguments ?w ?a = Inr (t, [''app-a'', ''ghost''], None, ''start'')"
    using arguments_obtain by blast
  have i: "sdk_import ?w = None" by (simp add: test_world_def)
  have c: "sdk_client ?w (client_profile ?a) = None" by (simp add: test_world_def)
  have l: "sdk_apps_list ?w = Inr [app_in ''app-a'' ''STOPPED'']" by (simp add: test_world_def)
  have g: "\<exists>n\<in>set [''app-a'', ''ghost'']. n \<notin> name ` set [app_in ''app-a'' ''STOPPED'']"
    by code_simp
  have n: "\<not> opt_ignore_missing_apps ?a" by (simp add: test_args_def)
  have f1: "filter (\<lambda>n. n \<notin> name ` set [app_in ''app-a'' ''STOPPED'']) [''app-a'', ''ghost''] = [''ghost'']"
    by code_simp
  have f2: "length (filter (\<lambda>n. n \<in> name ` set [app_in ''app-a'' ''STOPPED'']) [''app-a'', ''ghost'']) = 1"
    by code_simp
  show ?thesis
    using missing_names_abort [OF a i c l g n, where r = "[]"]
    unfolding f1 f2 by blast
qed

text \<open>
  Claim C4. Take a run of \<open>main\<close> that reaches the loop over the targets: its arguments
  are accepted, the SDK is imported, the client is constructed, the listing yields a
  non-empty list of targets, and no name is missing or missing names are ignored. The run
  builds a summary and returns 1 if the summary counts a failure and 0 if it counts none;
  the failures counted are the calls that raised; unless the run is dry, the calls issued
  are, in the order of the targets, one for every target that is not in a terminal state,
  whichever of them raise; every such target is counted either as changed or as failed;
  and all targets are counted as evaluated.
\<close>

theorem transition_failures_isolated:
  assumes "main_arguments w args = Inr (now_local, ns, days, action)"
    and "sdk_import w = None"
    and "sdk_client w (client_profile args) = None"
    and "select_target_apps (sdk_apps_list w) ns = Inr (targets, missing)"
    and "targets \<noteq> []"
    and "missing = [] \<or> opt_ignore_missing_apps args"
  shows "\<exists>p. report (main w r args) = Some p
     \<and> stdout (main w r args) = emit_result (opt_output args) p
     \<and> result (main w r args) = Returned (if key_failures p = 0 then 0 else 1)
     \<and> key_exit_code p = (if key_failures p = 0 then 0 else 1)
     \<and> key_failures p = length (filter failed_call (calls (main w r args)))
     \<and> key_apps_changed p + key_failures p = length (filter (needs_change action) targets)
     \<and> key_apps_evaluated p = length targets
     \<and> map (\<lambda>c. (fst c, fst (snd c))) (calls (main w r args))
         = (if opt_dry_run args then []
            else map (\<lambda>a. (action, name a)) (filter (needs_change action) targets))"
proof -
  obtain new r' where
    l: "reconcile w (opt_dry_run args) action targets (0, 0, [], r)
       = (0 + length (filter failed_call new),
          0 + length (filter (needs_change action) targets) - length (filter failed_call new),
          [] @ new, r')"
    and b: "length (filter failed_call new) \<le> length (filter (needs_change action) targets)"
    and m: "map (\<lambda>c. (fst c, fst (snd c))) new
         = (if opt_dry_run args then []
            else map (\<lambda>a. (action, name a)) (filter (needs_change action) targets))"
    using reconcile_shape [of w "opt_dry_run args" action targets 0 0 "[]" r] by blast
  have "main w r args = returned new r'
      (emit_and_return action days ns
         (length (filter (needs_change action) targets) - length (filter failed_call new))
         (length targets) args
         (if length (filter failed_call new) \<noteq> 0 then 1 else 0)
         (length (filter failed_call new)) missing now_local)"
    unfolding main_after_arguments [OF assms(1)]
      main_reconcile_selected [OF assms(2) assms(3) assms(4)]
    using assms(5) assms(6) l by auto
  then show ?thesis
    using b m by (simp add: returned_emit summary_payload_counts)
qed

text \<open>
  Claim C4 on a run that starts four applications: \<open>app-d\<close> is started, \<open>app-c\<close> is
  active and skipped, starting \<open>app-b\<close> fails, and \<open>app-a\<close> is started all the same. The
  run returns 1 and counts one failure.
\<close>

theorem transition_failures_isolated_witness:
  "result (main (test_world [app_in ''app-a'' ''STOPPED'', app_in ''app-b'' ''stopped'',
                             app_in ''app-c'' ''Active'', app_in ''app-d'' ''weird'']) []
       (test_args\<lparr>opt_app_names := ''app-d,app-c,app-b,app-a'', opt_dry_run := False\<rparr>))
     = Returned 1
   \<and> calls (main (test_world [app_in ''app-a'' ''STOPPED'', app_in ''app-b'' ''stopped'',
                             app_in ''app-c'' ''Active'', app_in ''app-d'' ''weird'']) []
       (test_args\<lparr>opt_app_names := ''app-d,app-c,app-b,app-a'', opt_dry_run := False\<rparr>))
     = [(''start'', ''app-d'', None),
        (''start'', ''app-b'', Some (OtherException ''start failed'')),
        (''start'', ''app-a'', None)]
   \<and> (\<exists>p. report (main (test_world [app_in ''app-a'' ''STOPPED'', app_in ''app-b'' ''stopped'',
                             app_in ''app-c'' ''Active'', app_in ''app-d'' ''weird'']) []
       (test_args\<lparr>opt_app_names := ''app-d,app-c,app-b,app-a'', opt_dry_run := False\<rparr>)) = Some p
        \<and> key_failures p = 1 \<and> key_apps_changed p = 2 \<and> key_apps_evaluated p = 4)"
proof -
  let ?l = "[app_in ''app-a'' ''STOPPED'', app_in ''app-b'' ''stopped'',
             app_in ''app-c'' ''Active'', app_in ''app-d'' ''weird'']"
  let ?t = "[app_in ''app-d'' ''weird'', app_in ''app-c'' ''Active'',
             app_in ''app-b'' ''stopped'', app_in ''app-a'' ''STOPPED'']"
  let ?w = "test_world ?l"
  let ?a = "test_args\<lparr>opt_app_names := ''app-d,app-c,app-b,app-a'', opt_dry_run := False\<rparr>"
  have "case main_arguments ?w ?a of
      Inl _ \<Rightarrow> False
    | Inr (now_local, ns', days', action') \<Rightarrow>
        ns' = [''app-d'', ''app-c'', ''app-b'', ''app-a''] \<and> days' = None \<and> action' = ''start''"
    by code_simp
  then obtain t where
    a: "main_arguments ?w ?a = Inr (t, [''app-d'', ''app-c'', ''app-b'', ''app-a''], None, ''start'')"
    using arguments_obtain by blast
  have i: "sdk_import ?w = None" by (simp add: test_world_def)
  have c: "sdk_client ?w (client_profile ?a) = None" by (simp add: test_world_def)
  have s: "select_target_apps (sdk_apps_list ?w) [''app-d'', ''app-c'', ''app-b'', ''app-a'']
      = Inr (?t, [])"
    by code_simp
  have ne: "?t \<noteq> []" by simp
  have mi: "[] = [] \<or> opt_ignore_missing_apps ?a" by simp
  have k: "calls (main ?w [] ?a)
     = [(''start'', ''app-d'', None),
        (''start'', ''app-b'', Some (OtherException ''start failed'')),
        (''start'', ''app-a'', None)]"
    by code_simp
  have f: "length (filter failed_call [(''start'', ''app-d'', None),
        (''start'', ''app-b'', Some (OtherException ''start failed'')),
        (''start'', ''app-a'', None)]) = 1"
    by code_simp
  have n: "length (filter (needs_change ''start'') ?t) = 3" by code_simp
  obtain p where r: "report (main ?w [] ?a) = Some p"
    and x: "result (main ?w [] ?a) = Returned (if key_failures p = 0 then 0 else 1)"
    and kf: "key_failures p = length (filter failed_call (calls (main ?w [] ?a)))"
    and kc: "key_apps_changed p + key_failures p = length (filter (needs_change ''start'') ?t)"
    and ke: "key_apps_evaluated p = length ?t"
    using transition_failures_isolated [OF a i c s ne mi, where r = "[]"] by blast
  have kf1: "key_failures p = 1" using kf unfolding k f .
  have kc1: "key_apps_changed p = 2" using kc unfolding n kf1 by simp
  have ke1: "key_apps_evaluated p = 4" using ke by simp
  have x1: "result (main ?w [] ?a) = Returned 1" using x unfolding kf1 by simp
  show ?thesis using x1 k r kf1 kc1 ke1 by blast
qed

text \<open>
  Claim C5, as stated, fails for a failure of the import that is not an \<open>ImportError\<close>.
  When the module is imported but has no \<open>WorkspaceClient\<close>, \<open>_workspace_client_class\<close>
  raises an \<open>AttributeError\<close>, which \<open>main\<close> does not catch: the run does not return 2,
  and it builds and prints no summary.
\<close>

theorem import_attribute_error_counterexample:
  "result (main ((test_world [app_in ''app-a'' ''STOPPED''])\<lparr>sdk_import := Some AttributeError\<rparr>)
       [] test_args) = Raised AttributeError
   \<and> result (main ((test_world [app_in ''app-a'' ''STOPPED''])\<lparr>sdk_import := Some AttributeError\<rparr>)
       [] test_args) \<noteq> Returned 2
   \<and> map_option key_exit_code
       (report (main ((test_world [app_in ''app-a'' ''STOPPED''])\<lparr>sdk_import := Some AttributeError\<rparr>)
          [] test_args)) = None
   \<and> map key_exit_code
       (stdout (main ((test_world [app_in ''app-a'' ''STOPPED''])\<lparr>sdk_import := Some AttributeError\<rparr>)
          [] test_args)) = []"
  by code_simp

text \<open>
  Claim C5, amended. Take a run of \<open>main\<close> whose arguments are accepted. When the import
  of the SDK raises an \<open>ImportError\<close> or a \<open>ModuleNotFoundError\<close>, when the client cannot
  be constructed, or when the applications cannot be listed, whatever the exception, the
  run returns 2 with a summary of zero applications evaluated and zero changed, and issues
  no call. When the listing succeeds and none of the requested names is found, the run
  issues no call and returns 0 if missing applications are ignored and 1 if they are not.
  Any other exception of the import leaves \<open>main\<close> uncaught, without a summary and
  without a call.
\<close>

theorem setup_failure_and_no_target_exit_codes:
  assumes "main_arguments w args = Inr (now_local, ns, days, action)"
  shows "((\<exists>e. sdk_import w = Some e \<and> (e = ImportError \<or> e = ModuleNotFoundError))
       \<or> (sdk_import w = None \<and> sdk_client w (client_profile args) \<noteq> None)
       \<or> (sdk_import w = None \<and> sdk_client w (client_profile args) = None
           \<and> (\<exists>e. sdk_apps_list w = Inl e)) \<longrightarrow>
       result (main w r args) = Returned 2
       \<and> calls (main w r args) = [] \<and> remote (main w r args) = r
       \<and> (\<exists>p. report (main w r args) = Some p
            \<and> stdout (main w r args) = emit_result (opt_output args) p
            \<and> key_exit_code p = 2 \<and> key_apps_evaluated p = 0 \<and> key_apps_changed p = 0))
     \<and> (sdk_import w = None \<and> sdk_client w (client_profile args) = None
         \<and> select_target_apps (sdk_apps_list w) ns = Inr ([], missing) \<longrightarrow>
       result (main w r args) = Returned (if opt_ignore_missing_apps args then 0 else 1)
       \<and> calls (main w r args) = [] \<and> remote (main w r args) = r
       \<and> (\<exists>p. report (main w r args) = Some p
            \<and> stdout (main w r args) = emit_result (opt_output args) p
            \<and> key_exit_code p = (if opt_ignore_missing_apps args then 0 else 1)
            \<and> key_apps_evaluated p = 0 \<and> key_apps_changed p = 0
            \<and> key_missing_apps p = missing))
     \<and> ((\<exists>e. sdk_import w = Some e \<and> e \<noteq> ImportError \<and> e \<noteq> ModuleNotFoundError) \<longrightarrow>
       (\<exists>e. sdk_import w = Some e \<and> result (main w r args) = Raised e)
       \<and> report (main w r args) = None \<and> stdout (main w r args) = []
       \<and> calls (main w r args) = [] \<and> remote (main w r args) = r)"
proof -
  note m = main_after_arguments [OF assms, of r]
  have a: "(\<exists>e. sdk_import w = Some e \<and> (e = ImportError \<or> e = ModuleNotFoundError))
       \<or> (sdk_import w = None \<and> sdk_client w (client_profile args) \<noteq> None)
       \<or> (sdk_import w = None \<and> sdk_client w (client_profile args) = None
           \<and> (\<exists>e. sdk_apps_list w = Inl e)) \<longrightarrow>
       result (main w r args) = Returned 2
       \<and> calls (main w r args) = [] \<and> remote (main w r args) = r
       \<and> (\<exists>p. report (main w r args) = Some p
            \<and> stdout (main w r args) = emit_result (opt_output args) p
            \<and> key_exit_code p = 2 \<and> key_apps_evaluated p = 0 \<and> key_apps_changed p = 0)"
  proof
    assume "(\<exists>e. sdk_import w = Some e \<and> (e = ImportError \<or> e = ModuleNotFoundError))
       \<or> (sdk_import w = None \<and> sdk_client w (client_profile args) \<noteq> None)
       \<or> (sdk_import w = None \<and> sdk_client w (client_profile args) = None
           \<and> (\<exists>e. sdk_apps_list w = Inl e))"
    then have "main w r args = returned [] r (emit_and_return action days ns 0 0 args 2 1 [] now_local)"
      unfolding m by (rule main_reconcile_setup_failure)
    then show "result (main w r args) = Returned 2
       \<and> calls (main w r args) = [] \<and> remote (main w r args) = r
       \<and> (\<exists>p. report (main w r args) = Some p
            \<and> stdout (main w r args) = emit_result (opt_output args) p
            \<and> key_exit_code p = 2 \<and> key_apps_evaluated p = 0 \<and> key_apps_changed p = 0)"
      by (simp add: returned_emit summary_payload_counts)
  qed
  have b: "sdk_import w = None \<and> sdk_client w (client_profile args) = None
         \<and> select_target_apps (sdk_apps_list w) ns = Inr ([], missing) \<longrightarrow>
       result (main w r args) = Returned (if opt_ignore_missing_apps args then 0 else 1)
       \<and> calls (main w r args) = [] \<and> remote (main w r args) = r
       \<and> (\<exists>p. report (main w r args) = Some p
            \<and> stdout (main w r args) = emit_result (opt_output args) p
            \<and> key_exit_code p = (if opt_ignore_missing_apps args then 0 else 1)
            \<and> key_apps_evaluated p = 0 \<and> key_apps_changed p = 0
            \<and> key_missing_apps p = missing)"
  proof
    assume h: "sdk_import w = None \<and> sdk_client w (client_profile args) = None
         \<and> select_target_apps (sdk_apps_list w) ns = Inr ([], missing)"
    have "main w r args = returned [] r
        (emit_and_return action days ns 0 0 args
           (if opt_ignore_missing_apps args then 0 else 1) 0 missing now_local)"
      unfolding m
      using main_reconcile_selected [of w args ns "[]" missing r now_local days action] h
      by simp
    then show "result (main w r args) = Returned (if opt_ignore_missing_apps args then 0 else 1)
       \<and> calls (main w r args) = [] \<and> remote (main w r args) = r
       \<and> (\<exists>p. report (main w r args) = Some p
            \<and> stdout (main w r args) = emit_result (opt_output args) p
            \<and> key_exit_code p = (if opt_ignore_missing_apps args then 0 else 1)
            \<and> key_apps_evaluated p = 0 \<and> key_apps_changed p = 0
            \<and> key_missing_apps p = missing)"
      by (simp add: returned_emit summary_payload_counts)
  qed
  have c: "(\<exists>e. sdk_import w = Some e \<and> e \<noteq> ImportError \<and> e \<noteq> ModuleNotFoundError) \<longrightarrow>
       (\<exists>e. sdk_import w = Some e \<and> result (main w r args) = Raised e)
       \<and> report (main w r args) = None \<and> stdout (main w r args) = []
       \<and> calls (main w r args) = [] \<and> remote (main w r args) = r"
  proof
    assume "\<exists>e. sdk_import w = Some e \<and> e \<noteq> ImportError \<and> e \<noteq> ModuleNotFoundError"
    then obtain e where e: "sdk_import w = Some e" "e \<noteq> ImportError" "e \<noteq> ModuleNotFoundError"
      by blast
    then have "main w r args = ended (Raised e) r"
      unfolding m by (simp add: main_reconcile_def)
    then show "(\<exists>e. sdk_import w = Some e \<and> result (main w r args) = Raised e)
       \<and> report (main w r args) = None \<and> stdout (main w r args) = []
       \<and> calls (main w r args) = [] \<and> remote (main w r args) = r"
      using e by (simp add: ended_def)
  qed
  show ?thesis by (rule conjI [OF a conjI [OF b c]])
qed

text \<open>
  Claim C5, amended, on three runs for \<open>app-a\<close>: when the listing raises, the run
  returns 2 with the zero counts; when the listing is empty and missing applications are
  ignored, the run returns 0 without a call; when the import raises an \<open>AttributeError\<close>,
  so does the run.
\<close>

theorem setup_failure_and_no_target_exit_codes_witness:
  "result (main ((test_world [])\<lparr>sdk_apps_list := Inl (OtherException ''offline'')\<rparr>) [] test_args)
     = Returned 2
   \<and> (\<exists>p. report (main ((test_world [])\<lparr>sdk_apps_list := Inl (OtherException ''offline'')\<rparr>) [] test_args) = Some p
        \<and> key_apps_evaluated p = 0 \<and> key_apps_changed p = 0)
   \<and> result (main (test_world []) [] (test_args\<lparr>opt_ignore_missing_apps := True\<rparr>)) = Returned 0
   \<and> calls (main (test_world []) [] (test_args\<lparr>opt_ignore_missing_apps := True\<rparr>)) = []
   \<and> result (main ((test_world [])\<lparr>sdk_import := Some AttributeError\<rparr>) [] test_args)
     = Raised AttributeError"
proof -
  let ?w = "(test_world [])\<lparr>sdk_apps_list := Inl (OtherException ''offline'')\<rparr>"
  let ?a = "test_args\<lparr>opt_ignore_missing_apps := True\<rparr>"
  have "case main_arguments ?w test_args of
      Inl _ \<Rightarrow> False
    | Inr (now_local, ns', days', action') \<Rightarrow> ns' = [''app-a''] \<and> days' = None \<and> action' = ''start''"
    by code_simp
  then obtain t1 where a1: "main_arguments ?w test_args = Inr (t1, [''app-a''], None, ''start'')"
    using arguments_obtain by blast
  have h1: "sdk_import ?w = None \<and> sdk_client ?w (client_profile test_args) = None
      \<and> (\<exists>e. sdk_apps_list ?w = Inl e)"
    by (simp add: test_world_def)
  note c1 = mp [OF conjunct1 [OF setup_failure_and_no_target_exit_codes [OF a1, where r = "[]"]]
      disjI2 [OF disjI2 [OF h1]]]
  have "case main_arguments (test_world []) ?a of
      Inl _ \<Rightarrow> False
    | Inr (now_local, ns', days', action') \<Rightarrow> ns' = [''app-a''] \<and> days' = None \<and> action' = ''start''"
    by code_simp
  then obtain t2 where a2: "main_arguments (test_world []) ?a = Inr (t2, [''app-a''], None, ''start'')"
    using arguments_obtain by blast
  have s2: "select_target_apps (sdk_apps_list (test_world [])) [''app-a''] = Inr ([], [''app-a''])"
    by code_simp
  have h2: "sdk_import (test_world []) = None \<and> sdk_client (test_world []) (client_profile ?a) = None
      \<and> select_target_apps (sdk_apps_list (test_world [])) [''app-a''] = Inr ([], [''app-a''])"
    using s2 by (simp add: test_world_def)
  note c2 = mp [OF conjunct1 [OF conjunct2 [OF setup_failure_and_no_target_exit_codes
      [OF a2, where r = "[]" and missing = "[''app-a'']"]]] h2]
  have i: "opt_ignore_missing_apps ?a" by simp
  let ?v = "(test_world [])\<lparr>sdk_import := Some AttributeError\<rparr>"
  have "case main_arguments ?v test_args of
      Inl _ \<Rightarrow> False
    | Inr (now_local, ns', days', action') \<Rightarrow> ns' = [''app-a''] \<and> days' = None \<and> action' = ''start''"
    by code_simp
  then obtain t3 where a3: "main_arguments ?v test_args = Inr (t3, [''app-a''], None, ''start'')"
    using arguments_obtain by blast
  have h3: "\<exists>e. sdk_import ?v = Some e \<and> e \<noteq> ImportError \<and> e \<noteq> ModuleNotFoundError"
    by (rule exI [of _ AttributeError]) simp
  note c3 = mp [OF conjunct2 [OF conjunct2 [OF setup_failure_and_no_target_exit_codes
      [OF a3, where r = "[]"]]] h3]
  have r3: "result (main ?v [] test_args) = Raised AttributeError"
    using c3 by auto
  from c1 c2 i r3 show ?thesis by (simp only: if_True) blast
qed

text \<open>
  Claim C9. Whenever a run of \<open>main\<close> builds a summary, \<open>main\<close> returns the summary's
  \<open>exit_code\<close>, and what it prints is that summary (in JSON mode) or nothing; a run
  that builds no summary prints nothing. So every printed summary carries the exit code
  that \<open>main\<close> returns.
\<close>

theorem summary_exit_code_is_returned:
  "(\<forall>p. report (main w r args) = Some p \<longrightarrow>
      result (main w r args) = Returned (key_exit_code p)
      \<and> stdout (main w r args) = emit_result (opt_output args) p)
   \<and> (report (main w r args) = None \<longrightarrow> stdout (main w r args) = [])
   \<and> (\<forall>p\<in>set (stdout (main w r args)). result (main w r args) = Returned (key_exit_code p))"
proof (cases "main_arguments w args")
  case (Inl x)
  then have "main w r args = ended x r" by (simp add: main_def)
  then show ?thesis by (rule ended_consistent)
next
  case (Inr v)
  obtain now_local ns days action where v: "v = (now_local, ns, days, action)" by (cases v)
  have m: "main w r args = main_reconcile w r args now_local ns days action"
    using Inr v by (simp add: main_after_arguments)
  from main_reconcile_ends [of w r args now_local ns days action] show ?thesis
  proof
    assume "\<exists>x. main_reconcile w r args now_local ns days action = ended x r"
    then obtain x where "main w r args = ended x r" using m by auto
    then show ?thesis by (rule ended_consistent)
  next
    assume "\<exists>issued r' changed evaluated code failed missing.
      main_reconcile w r args now_local ns days action
        = returned issued r'
            (emit_and_return action days ns changed evaluated args code failed missing now_local)"
    then obtain issued r' changed evaluated code failed missing where
      "main w r args = returned issued r'
            (emit_and_return action days ns changed evaluated args code failed missing now_local)"
      using m by auto
    then show ?thesis by (rule returned_consistent)
  qed
qed

text \<open>
  Claim C9 on the command line of the repository's test: the run prints one summary, whose
  exit code 0 is what \<open>main\<close> returns.
\<close>

theorem summary_exit_code_is_returned_witness:
  "map key_exit_code (stdout (main (test_world [app_in ''app-a'' ''STOPPED'']) [] test_args)) = [0]
   \<and> result (main (test_world [app_in ''app-a'' ''STOPPED'']) [] test_args) = Returned 0"
proof -
  let ?out = "main (test_world [app_in ''app-a'' ''STOPPED'']) [] test_args"
  have s: "map key_exit_code (stdout ?out) = [0]" by code_simp
  then obtain p where p: "p \<in> set (stdout ?out)" and c: "key_exit_code p = 0"
    by (cases "stdout ?out") auto
  have "result ?out = Returned (key_exit_code p)"
    using summary_exit_code_is_returned [of "test_world [app_in ''app-a'' ''STOPPED'']" "[]" test_args] p
    by blast
  then show ?thesis using s c by simp
qed

end
